theory Spec2Isabelle
  imports Complex_Main "HOL-Library.Sublist" "HOL-Library.Multiset" "HOL-Library.Log_Nat"
begin

section \<open>Python values, errors and strings\<close>

text \<open>
  The exceptions the modelled code raises (directly, or through the Python and numpy
  operations it calls). A raise is the \<open>Inl\<close> branch of a sum.
\<close>

datatype error =
    FileNotFoundError
  | ValueError
  | TypeError
  | IndexError
  | KeyError
  | AttributeError
  | ZeroDivisionError
  | OverflowError
  | UnboundLocalError
  | LibraryError

text \<open>
  \<open>s.endswith(t)\<close> is \<^const>\<open>suffix\<close> \<open>t s\<close>, \<open>t in s\<close> on strings is
  \<^const>\<open>sublist\<close> \<open>t s\<close>, \<open>s.startswith(t)\<close> is \<^const>\<open>prefix\<close> \<open>t s\<close>.
  Strings are byte lists; on UTF-8 these three tests agree with Python's tests on code
  points. \<open>str.lower\<close> is modelled on ASCII letters only.
\<close>

definition lower_char :: "char \<Rightarrow> char" where
  "lower_char c =
     (if of_char c \<ge> (65::nat) \<and> of_char c \<le> (90::nat)
      then char_of (of_char c + (32::nat)) else c)"

definition lower :: "string \<Rightarrow> string" where
  "lower s = map lower_char s"

text \<open>\<open>s.rfind(c)\<close>: the index of the last occurrence of \<open>c\<close>, or \<open>-1\<close>.\<close>

definition rfind :: "string \<Rightarrow> char \<Rightarrow> int" where
  "rfind s c =
     (if c \<in> set s
      then int (length s) - 1 - int (length (takeWhile (\<lambda>x. x \<noteq> c) (rev s)))
      else - 1)"

text \<open>\<open>s.rstrip('/')\<close>.\<close>

definition rstrip_sep :: "string \<Rightarrow> string" where
  "rstrip_sep s = rev (dropWhile (\<lambda>x. x = CHR ''/'') (rev s))"

section \<open>\<open>posixpath\<close>\<close>

text \<open>
  \<open>os.path.basename\<close> and \<open>os.path.split\<close> of the standard library (POSIX flavour):
  \<^verbatim>\<open>
  def basename(p):
      i = p.rfind('/') + 1
      return p[i:]
  def split(p):
      i = p.rfind('/') + 1
      head, tail = p[:i], p[i:]
      if head and head != '/'*len(head):
          head = head.rstrip('/')
      return head, tail
  \<close>
\<close>

definition basename :: "string \<Rightarrow> string" where
  "basename p = drop (nat (rfind p CHR ''/'' + 1)) p"

definition split_path :: "string \<Rightarrow> string \<times> string" where
  "split_path p =
     (let i = nat (rfind p CHR ''/'' + 1);
          head = take i p;
          tail = drop i p
      in (if head \<noteq> [] \<and> head \<noteq> replicate (length head) CHR ''/''
          then rstrip_sep head else head, tail))"

text \<open>
  \<open>os.path.join\<close> of two parts, \<open>os.path.normpath\<close> and \<open>os.path.abspath\<close>
  (the current directory is a parameter):
  \<^verbatim>\<open>
  def join(a, b):
      if b.startswith('/'): path = b
      elif not a or a.endswith('/'): path = a + b
      else: path = a + '/' + b
      return path
  def normpath(path):
      if path == '': return '.'
      initial_slashes = path.startswith('/')
      if (initial_slashes and path.startswith('//') and not path.startswith('///')):
          initial_slashes = 2
      comps = path.split('/')
      new_comps = []
      for comp in comps:
          if comp in ('', '.'): continue
          if (comp != '..' or (not initial_slashes and not new_comps) or
                  (new_comps and new_comps[-1] == '..')):
              new_comps.append(comp)
          elif new_comps:
              new_comps.pop()
      path = '/'.join(new_comps)
      if initial_slashes: path = '/'*initial_slashes + path
      return path or '.'
  def abspath(path):
      if not isabs(path): path = join(os.getcwd(), path)
      return normpath(path)
  \<close>
\<close>

definition path_join :: "string \<Rightarrow> string \<Rightarrow> string" where
  "path_join a b =
     (if prefix ''/'' b then b
      else if a = [] \<or> suffix ''/'' a then a @ b
      else a @ ''/'' @ b)"

text \<open>\<open>s.split('/')\<close> and \<open>'/'.join(comps)\<close>.\<close>

fun split_sep :: "string \<Rightarrow> string list" where
  "split_sep [] = [[]]"
| "split_sep (c # cs) =
     (if c = CHR ''/'' then [] # split_sep cs
      else (case split_sep cs of [] \<Rightarrow> [[c]] | x # xs \<Rightarrow> (c # x) # xs))"

fun join_sep :: "string list \<Rightarrow> string" where
  "join_sep [] = []"
| "join_sep [x] = x"
| "join_sep (x # y # ys) = x @ ''/'' @ join_sep (y # ys)"

fun norm_comps :: "nat \<Rightarrow> string list \<Rightarrow> string list \<Rightarrow> string list" where
  "norm_comps initial_slashes new_comps [] = new_comps"
| "norm_comps initial_slashes new_comps (part # comps) =
     (if part = [] \<or> part = ''.'' then norm_comps initial_slashes new_comps comps
      else if part \<noteq> ''..'' \<or> (initial_slashes = 0 \<and> new_comps = [])
              \<or> (new_comps \<noteq> [] \<and> last new_comps = ''..'')
        then norm_comps initial_slashes (new_comps @ [part]) comps
      else if new_comps \<noteq> [] then norm_comps initial_slashes (butlast new_comps) comps
      else norm_comps initial_slashes new_comps comps)"

definition normpath :: "string \<Rightarrow> string" where
  "normpath path =
     (if path = [] then ''.''
      else
        (let initial_slashes =
               (if prefix ''/'' path
                then (if prefix ''//'' path \<and> \<not> prefix ''///'' path then 2 else 1)
                else 0);
             new_comps = norm_comps initial_slashes [] (split_sep path);
             path' = replicate initial_slashes CHR ''/'' @ join_sep new_comps
         in if path' = [] then ''.'' else path'))"

definition abspath :: "string \<Rightarrow> string \<Rightarrow> string" where
  "abspath cwd path =
     (if \<not> prefix ''/'' path then normpath (path_join cwd path) else normpath path)"

section \<open>Arrays\<close>

text \<open>
  A numpy array: its shape and its elements in row-major order. The element type is a
  parameter (the dtype).
\<close>

record 'a ndarray =
  shape :: "nat list"
  elems :: "'a list"

definition wf_array :: "'a ndarray \<Rightarrow> bool" where
  "wf_array a = (length (elems a) = prod_list (shape a))"

text \<open>
  Pixel values. A stored number, integer or finite float, is read as the exact rational
  it denotes; comparisons are exact. Arithmetic on pixels is the dtype's and rounds:
  see \<open>float64_times_255\<close> below.
\<close>

type_synonym pixel = rat

text \<open>Python's index normalisation: a negative index counts from the end.\<close>

definition py_index :: "nat \<Rightarrow> int \<Rightarrow> error + nat" where
  "py_index n i =
     (let j = (if i < 0 then i + int n else i)
      in if 0 \<le> j \<and> j < int n then Inr (nat j) else Inl IndexError)"

text \<open>\<open>a[i]\<close> for an integer \<open>i\<close>: the \<open>i\<close>-th slice along the first axis.\<close>

definition getitem0 :: "'a ndarray \<Rightarrow> int \<Rightarrow> error + 'a ndarray" where
  "getitem0 a i =
     (case shape a of
        [] \<Rightarrow> Inl IndexError
      | n # rest \<Rightarrow>
          (case py_index n i of
             Inl e \<Rightarrow> Inl e
           | Inr j \<Rightarrow>
               Inr \<lparr>shape = rest,
                    elems = take (prod_list rest) (drop (j * prod_list rest) (elems a))\<rparr>))"

text \<open>
  \<open>np.transpose(a, (2, 1, 0))\<close>: defined on three-dimensional arrays only
  (numpy raises \<open>ValueError\<close> when the axes do not match the array).
\<close>

definition transpose_210 :: "'a ndarray \<Rightarrow> error + 'a ndarray" where
  "transpose_210 a =
     (case shape a of
        [d0, d1, d2] \<Rightarrow>
          Inr \<lparr>shape = [d2, d1, d0],
               elems = concat (map (\<lambda>k. concat (map (\<lambda>j.
                         map (\<lambda>i. elems a ! ((i * d1 + j) * d2 + k)) [0..<d0])
                         [0..<d1])) [0..<d2])\<rparr>
      | _ \<Rightarrow> Inl ValueError)"

text \<open>\<open>np.max(a)\<close>: raises \<open>ValueError\<close> on an array without elements.\<close>

definition np_max :: "('a::linorder) ndarray \<Rightarrow> error + 'a" where
  "np_max a = (case elems a of [] \<Rightarrow> Inl ValueError | x # xs \<Rightarrow> Inr (fold max xs x))"

text \<open>\<open>astype(int)\<close> truncates towards zero.\<close>

definition trunc :: "rat \<Rightarrow> int" where
  "trunc x = (if 0 \<le> x then \<lfloor>x\<rfloor> else \<lceil>x\<rceil>)"

text \<open>
  Rounding to the nearest IEEE 754 double, ties to even: 53 significant bits, and the
  fixed quantum \<open>2^-1074\<close> below the normal range. Overflow to infinity is not modelled
  (the function is used on products below \<open>2^63\<close> in absolute value).
\<close>

definition pow2 :: "int \<Rightarrow> rat" where
  "pow2 k = (if 0 \<le> k then 2 ^ nat k else 1 / 2 ^ nat (- k))"

text \<open>For \<open>a > 0\<close>, the exponent \<open>e\<close> with \<open>2^e \<le> a < 2^(e+1)\<close>.\<close>

definition floor_log2 :: "rat \<Rightarrow> int" where
  "floor_log2 a =
     (if 1 \<le> a then int (floorlog 2 (nat \<lfloor>a\<rfloor>)) - 1
      else - int (floorlog 2 (nat (\<lceil>1 / a\<rceil> - 1))))"

definition round_half_even :: "rat \<Rightarrow> int" where
  "round_half_even r =
     (let f = \<lfloor>r\<rfloor>; d = r - of_int f
      in if d < 1 / 2 then f
         else if 1 / 2 < d then f + 1
         else if even f then f else f + 1)"

definition round_float64 :: "rat \<Rightarrow> rat" where
  "round_float64 q =
     (if q = 0 then 0
      else
        (let a = \<bar>q\<bar>;
             e = max (floor_log2 a) (- 1022);
             quantum = pow2 (e - 52)
         in sgn q * of_int (round_half_even (a / quantum)) * quantum))"

text \<open>
  \<open>(x * 255).astype(int)\<close> on one value of a float64 array: the product is rounded to
  a double, then truncated.
\<close>

definition float64_times_255 :: "pixel \<Rightarrow> int" where
  "float64_times_255 x = trunc (round_float64 (x * 255))"

text \<open>
  \<open>(a * 255).astype(int)\<close>, element by element. How one value is multiplied by 255 and
  cast to int depends on the dtype of the array; it is the parameter \<open>times_255\<close>
  (\<open>float64_times_255\<close> for an array of doubles).
\<close>

definition scale_255 :: "(pixel \<Rightarrow> int) \<Rightarrow> pixel ndarray \<Rightarrow> pixel ndarray" where
  "scale_255 times_255 a = a\<lparr>elems := map (\<lambda>x. of_int (times_255 x)) (elems a)\<rparr>"

text \<open>
  \<open>a[..., k]\<close> for \<open>k = 0\<close> and \<open>k = -1\<close>: the first and the last entry along the last
  axis. \<open>IndexError\<close> on a zero-dimensional array and on an empty last axis.
\<close>

definition take_last_axis :: "'a ndarray \<Rightarrow> bool \<Rightarrow> error + 'a ndarray" where
  "take_last_axis a from_end =
     (case shape a of
        [] \<Rightarrow> Inl IndexError
      | _ \<Rightarrow>
          (let c = last (shape a); outer = butlast (shape a) in
           if c = 0 then Inl IndexError
           else Inr \<lparr>shape = outer,
                     elems = map (\<lambda>i. elems a ! (i * c + (if from_end then c - 1 else 0)))
                               [0..<prod_list outer]\<rparr>))"

text \<open>\<open>a[..., None]\<close> and \<open>a[:, :, None]\<close> on a two-dimensional array: a new last axis of length one.\<close>

definition add_last_axis :: "'a ndarray \<Rightarrow> 'a ndarray" where
  "add_last_axis a = a\<lparr>shape := shape a @ [1]\<rparr>"

text \<open>\<open>a[..., ::-1]\<close>: the last axis reversed.\<close>

definition reverse_last_axis :: "'a ndarray \<Rightarrow> error + 'a ndarray" where
  "reverse_last_axis a =
     (case shape a of
        [] \<Rightarrow> Inl IndexError
      | _ \<Rightarrow>
          (let c = last (shape a) in
           Inr (a\<lparr>elems := map (\<lambda>i. elems a ! ((i div c) * c + (c - 1 - i mod c)))
                              [0..<length (elems a)]\<rparr>)))"

section \<open>The file system and the objects passed as a file name\<close>

text \<open>
  An open \<open>h5py.File\<close>: the name it was opened under and its datasets by name.
\<close>

record h5file =
  h5_filename :: string
  h5_datasets :: "(string \<times> pixel ndarray) list"

text \<open>
  An open image store of the \<open>imgstore\<close> library: its images in store order, each with
  the frame number it had in the original video.
\<close>

record store =
  store_images :: "(int \<times> pixel ndarray) list"

text \<open>
  What a path string resolves to (relative to the current directory, which the map has
  already taken into account): nothing, a directory, or a file of one of the formats
  the backends read. A media file holds the frames its decoder delivers; the metadata
  file of an image store stands for the store it describes.
\<close>

datatype node =
    Directory
  | Hdf5File "(string \<times> pixel ndarray) list"
  | NpyFile "pixel ndarray"
  | MediaFile "pixel ndarray list"
  | StoreMetadata store
  | OtherFile

type_synonym fs = "string \<Rightarrow> node option"

definition path_exists :: "fs \<Rightarrow> string \<Rightarrow> bool" where
  "path_exists fs p = (fs p \<noteq> None)"

definition isdir :: "fs \<Rightarrow> string \<Rightarrow> bool" where
  "isdir fs p = (fs p = Some Directory)"

definition isfile :: "fs \<Rightarrow> string \<Rightarrow> bool" where
  "isfile fs p = (case fs p of None \<Rightarrow> False | Some Directory \<Rightarrow> False | Some _ \<Rightarrow> True)"

text \<open>
  The values the code receives where it expects a file name: a string, \<open>None\<close>, an
  open \<open>h5py.File\<close> or a numpy array.
\<close>

datatype pathlike =
    Str string
  | NoneObj
  | H5FileObj h5file
  | ArrayObj "pixel ndarray"

section \<open>\<open>Video.fixup_path\<close>\<close>

text \<open>
  \<^verbatim>\<open>
  if type(path) is not str: return path
  if os.path.exists(path): return path
  elif os.path.exists(os.path.basename(path)): return os.path.basename(path)
  elif path.endswith('metadata.yaml'):
      img_store_dir = os.path.basename(os.path.split(path)[0])
      if os.path.exists(img_store_dir): return img_store_dir
  raise FileNotFoundError(...)
  \<close>
\<close>

definition fixup_path :: "fs \<Rightarrow> pathlike \<Rightarrow> error + pathlike" where
  "fixup_path fs path =
     (case path of
        Str p \<Rightarrow>
          if path_exists fs p then Inr (Str p)
          else if path_exists fs (basename p) then Inr (Str (basename p))
          else if suffix ''metadata.yaml'' p then
            (let img_store_dir = basename (fst (split_path p))
             in if path_exists fs img_store_dir then Inr (Str img_store_dir)
                else Inl FileNotFoundError)
          else Inl FileNotFoundError
      | _ \<Rightarrow> Inr path)"

text \<open>
  The three resolution strategies in the order the specification lists them: the path
  as given, its basename, and, for a path ending in \<open>metadata.yaml\<close> only, the name of
  the directory holding that file.
\<close>

definition candidates :: "string \<Rightarrow> string list" where
  "candidates p =
     [p, basename p] @
     (if suffix ''metadata.yaml'' p then [basename (fst (split_path p))] else [])"

section \<open>\<open>HDF5Video\<close>\<close>

text \<open>
  The \<open>dataset\<close> argument: nothing, the name of a dataset, or an \<open>h5py.Dataset\<close>
  object (with the file it lives in, its name and its data).
\<close>

datatype dataset_arg =
    DsNone
  | DsName string
  | DsObj h5file string "pixel ndarray"

record hdf5video =
  hv_filename :: pathlike
  hv_dataset :: "string option"
  hv_input_format :: string
  hv_convert_range :: bool
  hv_file_h5 :: "h5file option"
  hv_dataset_h5 :: "pixel ndarray option"
  hv_channel_idx :: nat
  hv_width_idx :: nat
  hv_height_idx :: nat

text \<open>
  \<open>h5.File(filename, 'r')\<close> raises \<open>OSError\<close> unless the name resolves to an HDF5 file;
  the constructor turns that into \<open>FileNotFoundError\<close>.
\<close>

definition h5_open :: "fs \<Rightarrow> string \<Rightarrow> error + h5file" where
  "h5_open fs name =
     (case fs name of
        Some (Hdf5File ds) \<Rightarrow> Inr \<lparr>h5_filename = name, h5_datasets = ds\<rparr>
      | _ \<Rightarrow> Inl FileNotFoundError)"

text \<open>
  The validator of \<open>input_format\<close>; it sets the three axis indices, returned here as
  \<open>(channel_idx, width_idx, height_idx)\<close>:
  \<^verbatim>\<open>
  def check(self, attribute, value):
      if value not in ["channels_first", "channels_last"]:
          raise ValueError(f"HDF5Video input_format={value} invalid.")
      if value == "channels_first":
          self.__channel_idx = 1; self.__width_idx = 2; self.__height_idx = 3
      else:
          self.__channel_idx = 3; self.__width_idx = 2; self.__height_idx = 1
  \<close>
\<close>

definition check :: "string \<Rightarrow> error + nat \<times> nat \<times> nat" where
  "check value =
     (if value \<notin> set [''channels_first'', ''channels_last''] then Inl ValueError
      else if value = ''channels_first'' then Inr (1, 2, 3)
      else Inr (3, 2, 1))"

text \<open>
  The two halves of \<open>__attrs_post_init__\<close>: the file (\<open>file_h5\<close> and the new value of
  \<open>filename\<close>), then the dataset (\<open>dataset_h5\<close>, \<open>file_h5\<close> and the new value of
  \<open>dataset\<close>). Subscripting \<open>None\<close> raises \<open>TypeError\<close>, a missing dataset \<open>KeyError\<close>.
\<close>

definition init_file :: "fs \<Rightarrow> pathlike \<Rightarrow> error + h5file option \<times> pathlike" where
  "init_file fs filename =
     (case filename of
        H5FileObj f \<Rightarrow> Inr (Some f, Str (h5_filename f))
      | Str s \<Rightarrow>
          (case h5_open fs s of
             Inl e \<Rightarrow> Inl e
           | Inr f \<Rightarrow> Inr (Some f, filename))
      | _ \<Rightarrow> Inr (None, filename))"

definition init_dataset ::
  "h5file option \<Rightarrow> dataset_arg \<Rightarrow>
   error + pixel ndarray option \<times> h5file option \<times> string option" where
  "init_dataset file_h5 dataset =
     (case dataset of
        DsObj f name d \<Rightarrow> Inr (Some d, Some f, Some name)
      | DsName name \<Rightarrow>
          (case file_h5 of
             None \<Rightarrow> Inl TypeError
           | Some f \<Rightarrow>
               (case map_of (h5_datasets f) name of
                  None \<Rightarrow> Inl KeyError
                | Some d \<Rightarrow> Inr (Some d, file_h5, Some name)))
      | DsNone \<Rightarrow> Inr (None, file_h5, None))"

text \<open>
  The generated \<open>__init__\<close> runs the validator \<open>check\<close> of \<open>input_format\<close> first and
  \<open>__attrs_post_init__\<close> after it.
\<close>

definition hdf5video_new ::
  "fs \<Rightarrow> pathlike \<Rightarrow> dataset_arg \<Rightarrow> string \<Rightarrow> bool \<Rightarrow> error + hdf5video" where
  "hdf5video_new fs filename dataset input_format convert_range =
     (case check input_format of
        Inl e \<Rightarrow> Inl e
      | Inr (channel_idx, width_idx, height_idx) \<Rightarrow>
          (case init_file fs filename of
             Inl e \<Rightarrow> Inl e
           | Inr (file_h5, filename') \<Rightarrow>
               (case init_dataset file_h5 dataset of
                  Inl e \<Rightarrow> Inl e
                | Inr (dataset_h5, file_h5', dataset') \<Rightarrow>
                    Inr \<lparr>hv_filename = filename',
                         hv_dataset = dataset',
                         hv_input_format = input_format,
                         hv_convert_range = convert_range,
                         hv_file_h5 = file_h5',
                         hv_dataset_h5 = dataset_h5,
                         hv_channel_idx = channel_idx,
                         hv_width_idx = width_idx,
                         hv_height_idx = height_idx\<rparr>)))"

text \<open>\<open>a.shape[k]\<close> of an array that may be \<open>None\<close>.\<close>

definition shape_at :: "'a ndarray option \<Rightarrow> nat \<Rightarrow> error + nat" where
  "shape_at a k =
     (case a of
        None \<Rightarrow> Inl AttributeError
      | Some d \<Rightarrow> if k < length (shape d) then Inr (shape d ! k) else Inl IndexError)"

definition hdf5_frames :: "hdf5video \<Rightarrow> error + nat" where
  "hdf5_frames v = shape_at (hv_dataset_h5 v) 0"

definition hdf5_channels :: "hdf5video \<Rightarrow> error + nat" where
  "hdf5_channels v = shape_at (hv_dataset_h5 v) (hv_channel_idx v)"

definition hdf5_width :: "hdf5video \<Rightarrow> error + nat" where
  "hdf5_width v = shape_at (hv_dataset_h5 v) (hv_width_idx v)"

definition hdf5_height :: "hdf5video \<Rightarrow> error + nat" where
  "hdf5_height v = shape_at (hv_dataset_h5 v) (hv_height_idx v)"

text \<open>
  \<^verbatim>\<open>
  frame = self.__dataset_h5[idx]
  if self.input_format == "channels_first":
      frame = np.transpose(frame, (2, 1, 0))
  if self.convert_range and np.max(frame) <= 1.:
      frame = (frame * 255).astype(int)
  return frame
  \<close>
  The parameter \<open>times_255\<close> is the multiplication by 255 and the cast to int in the
  dtype of the dataset.
\<close>

definition hdf5_get_frame ::
  "(pixel \<Rightarrow> int) \<Rightarrow> hdf5video \<Rightarrow> int \<Rightarrow> error + pixel ndarray" where
  "hdf5_get_frame times_255 v idx =
     (case hv_dataset_h5 v of
        None \<Rightarrow> Inl TypeError
      | Some d \<Rightarrow>
          (case getitem0 d idx of
             Inl e \<Rightarrow> Inl e
           | Inr frame0 \<Rightarrow>
               (case (if hv_input_format v = ''channels_first''
                      then transpose_210 frame0 else Inr frame0) of
                  Inl e \<Rightarrow> Inl e
                | Inr frame \<Rightarrow>
                    if hv_convert_range v then
                      (case np_max frame of
                         Inl e \<Rightarrow> Inl e
                       | Inr m \<Rightarrow>
                           if m \<le> 1 then Inr (scale_255 times_255 frame) else Inr frame)
                    else Inr frame)))"

section \<open>\<open>NumpyVideo\<close>\<close>

record numpyvideo =
  nv_filename :: pathlike
  nv_data :: "pixel ndarray option"
  nv_frame_idx :: nat
  nv_width_idx :: nat
  nv_height_idx :: nat
  nv_channel_idx :: nat

text \<open>
  \<open>np.load(filename)\<close>: \<open>OSError\<close> (turned into \<open>FileNotFoundError\<close> by the constructor)
  when the name is no readable file, \<open>ValueError\<close> when the file is not in the array
  format.
\<close>

definition np_load :: "fs \<Rightarrow> string \<Rightarrow> error + pixel ndarray" where
  "np_load fs name =
     (case fs name of
        Some (NpyFile a) \<Rightarrow> Inr a
      | None \<Rightarrow> Inl FileNotFoundError
      | Some Directory \<Rightarrow> Inl FileNotFoundError
      | Some _ \<Rightarrow> Inl ValueError)"

definition numpyvideo_new :: "fs \<Rightarrow> pathlike \<Rightarrow> error + numpyvideo" where
  "numpyvideo_new fs filename =
     (case (case filename of
              ArrayObj a \<Rightarrow> Inr (Some a, Str ''Raw Video Data'')
            | Str s \<Rightarrow>
                (case np_load fs s of Inl e \<Rightarrow> Inl e | Inr a \<Rightarrow> Inr (Some a, filename))
            | _ \<Rightarrow> Inr (None, filename))
      of
        Inl e \<Rightarrow> Inl e
      | Inr (data, filename') \<Rightarrow>
          Inr \<lparr>nv_filename = filename', nv_data = data,
               nv_frame_idx = 0, nv_width_idx = 1, nv_height_idx = 2, nv_channel_idx = 3\<rparr>)"

definition numpy_frames :: "numpyvideo \<Rightarrow> error + nat" where
  "numpy_frames v = shape_at (nv_data v) (nv_frame_idx v)"

definition numpy_channels :: "numpyvideo \<Rightarrow> error + nat" where
  "numpy_channels v = shape_at (nv_data v) (nv_channel_idx v)"

definition numpy_width :: "numpyvideo \<Rightarrow> error + nat" where
  "numpy_width v = shape_at (nv_data v) (nv_width_idx v)"

definition numpy_height :: "numpyvideo \<Rightarrow> error + nat" where
  "numpy_height v = shape_at (nv_data v) (nv_height_idx v)"

definition numpy_get_frame :: "numpyvideo \<Rightarrow> int \<Rightarrow> error + pixel ndarray" where
  "numpy_get_frame v idx =
     (case nv_data v of None \<Rightarrow> Inl TypeError | Some d \<Rightarrow> getitem0 d idx)"

section \<open>\<open>MediaVideo\<close>\<close>

text \<open>
  The \<open>cv2.VideoCapture\<close> reader: the frames the decoder delivers and the position of
  the next frame to read. A file that is no video opens as a reader without frames.
  \<open>read()\<close> returns \<open>(False, None)\<close> outside the frames.
\<close>

record reader =
  rd_frames :: "pixel ndarray list"
  rd_pos :: int

definition video_capture :: "fs \<Rightarrow> string \<Rightarrow> reader" where
  "video_capture fs name =
     (case fs name of
        Some (MediaFile fr) \<Rightarrow> \<lparr>rd_frames = fr, rd_pos = 0\<rparr>
      | _ \<Rightarrow> \<lparr>rd_frames = [], rd_pos = 0\<rparr>)"

definition reader_read :: "reader \<Rightarrow> pixel ndarray option \<times> reader" where
  "reader_read r =
     (if 0 \<le> rd_pos r \<and> rd_pos r < int (length (rd_frames r))
      then (Some (rd_frames r ! nat (rd_pos r)), r\<lparr>rd_pos := rd_pos r + 1\<rparr>)
      else (None, r))"

record mediavideo =
  mv_filename :: string
  mv_grayscale :: bool
  mv_bgr :: bool
  mv_detect_grayscale :: bool
  mv_reader :: reader
  mv_test_frame :: "pixel ndarray option"

text \<open>
  \<^verbatim>\<open>
  def get_frame(self, idx, grayscale=None):
      if grayscale is None: grayscale = self.grayscale
      if self.__reader.get(cv2.CAP_PROP_POS_FRAMES) != idx:
          self.__reader.set(cv2.CAP_PROP_POS_FRAMES, idx)
      ret, frame = self.__reader.read()
      if grayscale: frame = frame[...,0][...,None]
      if self.bgr: frame = frame[...,::-1]
      return frame
  \<close>
  Subscripting \<open>None\<close> (a failed read) raises \<open>TypeError\<close>. The reader moves, so the
  video is returned with the result. Setting the position to a negative index moves the
  reader to frame 0.
\<close>

definition media_get_frame ::
  "mediavideo \<Rightarrow> int \<Rightarrow> bool option \<Rightarrow> (error + pixel ndarray option) \<times> mediavideo" where
  "media_get_frame v idx grayscale_arg =
     (let grayscale = (case grayscale_arg of None \<Rightarrow> mv_grayscale v | Some g \<Rightarrow> g);
          r0 = (if rd_pos (mv_reader v) \<noteq> idx
                then (mv_reader v)\<lparr>rd_pos := max 0 idx\<rparr>
                else mv_reader v);
          (frame0, r1) = reader_read r0;
          v' = v\<lparr>mv_reader := r1\<rparr>;
          frame1 =
            (if grayscale then
               (case frame0 of
                  None \<Rightarrow> Inl TypeError
                | Some f \<Rightarrow>
                    (case take_last_axis f False of
                       Inl e \<Rightarrow> Inl e
                     | Inr g \<Rightarrow> Inr (Some (add_last_axis g))))
             else Inr frame0);
          frame2 =
            (case frame1 of
               Inl e \<Rightarrow> Inl e
             | Inr fr \<Rightarrow>
                 if mv_bgr v then
                   (case fr of
                      None \<Rightarrow> Inl TypeError
                    | Some f \<Rightarrow>
                        (case reverse_last_axis f of
                           Inl e \<Rightarrow> Inl e
                         | Inr g \<Rightarrow> Inr (Some g)))
                 else Inr fr)
      in (frame2, v'))"

text \<open>
  \<open>bool(np.alltrue(test_frame[..., 0] == test_frame[..., -1]))\<close>.
\<close>

definition detect_grayscale :: "pixel ndarray option \<Rightarrow> error + bool" where
  "detect_grayscale test_frame =
     (case test_frame of
        None \<Rightarrow> Inl TypeError
      | Some f \<Rightarrow>
          (case take_last_axis f False of
             Inl e \<Rightarrow> Inl e
           | Inr a \<Rightarrow>
               (case take_last_axis f True of
                  Inl e \<Rightarrow> Inl e
                | Inr b \<Rightarrow> Inr (elems a = elems b))))"

text \<open>
  The constructor. \<open>grayscale\<close> not given: the default \<open>False\<close> with detection from the
  first frame. \<open>os.path.isfile\<close> raises \<open>TypeError\<close> on a value that is no path.
\<close>

definition mediavideo_new ::
  "fs \<Rightarrow> pathlike \<Rightarrow> bool option \<Rightarrow> bool \<Rightarrow> error + mediavideo" where
  "mediavideo_new fs filename grayscale_arg bgr =
     (case filename of
        Str name \<Rightarrow>
          if \<not> isfile fs name then Inl FileNotFoundError
          else
            (let v0 = \<lparr>mv_filename = name,
                        mv_grayscale = (case grayscale_arg of None \<Rightarrow> False | Some g \<Rightarrow> g),
                        mv_bgr = bgr,
                        mv_detect_grayscale = (grayscale_arg = None),
                        mv_reader = video_capture fs name,
                        mv_test_frame = None\<rparr>;
                 (res, v1) = media_get_frame v0 0 (Some False)
             in case res of
                  Inl e \<Rightarrow> Inl e
                | Inr test_frame \<Rightarrow>
                    (let v2 = v1\<lparr>mv_test_frame := test_frame\<rparr> in
                     if mv_detect_grayscale v2 then
                       (case detect_grayscale test_frame of
                          Inl e \<Rightarrow> Inl e
                        | Inr g \<Rightarrow> Inr (v2\<lparr>mv_grayscale := g\<rparr>))
                     else Inr v2))
      | _ \<Rightarrow> Inl TypeError)"

definition media_frames :: "mediavideo \<Rightarrow> error + nat" where
  "media_frames v = Inr (length (rd_frames (mv_reader v)))"

definition media_channels :: "mediavideo \<Rightarrow> error + nat" where
  "media_channels v = (if mv_grayscale v then Inr 1 else shape_at (mv_test_frame v) 2)"

definition media_width :: "mediavideo \<Rightarrow> error + nat" where
  "media_width v = shape_at (mv_test_frame v) 1"

definition media_height :: "mediavideo \<Rightarrow> error + nat" where
  "media_height v = shape_at (mv_test_frame v) 0"

section \<open>\<open>ImgStoreVideo\<close>\<close>

text \<open>
  \<open>imgstore.new_for_filename\<close> belongs to an external library: it is a parameter, a
  function from the file name to the opened store or to the error it raises. The store
  operations the backend uses: \<open>get_next_image\<close> on a store just opened (its first
  image), \<open>get_image(frame_number)\<close> by original frame number and
  \<open>get_image(frame_number=None, frame_index=i)\<close> by position. Each raises inside the
  library when there is no such image.
\<close>

type_synonym opener = "string \<Rightarrow> error + store"

definition get_next_image :: "store \<Rightarrow> error + pixel ndarray" where
  "get_next_image st =
     (case store_images st of [] \<Rightarrow> Inl LibraryError | (n, img) # _ \<Rightarrow> Inr img)"

definition get_image_by_number :: "store \<Rightarrow> int \<Rightarrow> error + pixel ndarray" where
  "get_image_by_number st n =
     (case map_of (store_images st) n of None \<Rightarrow> Inl LibraryError | Some img \<Rightarrow> Inr img)"

definition get_image_by_index :: "store \<Rightarrow> int \<Rightarrow> error + pixel ndarray" where
  "get_image_by_index st i =
     (if 0 \<le> i \<and> i < int (length (store_images st))
      then Inr (snd (store_images st ! nat i)) else Inl LibraryError)"

record imgstorevideo =
  iv_filename :: string
  iv_index_by_original :: bool
  iv_store :: "store option"
  iv_img :: "pixel ndarray option"

definition imgstore_open :: "opener \<Rightarrow> imgstorevideo \<Rightarrow> error + imgstorevideo" where
  "imgstore_open new_for_filename v =
     (case iv_store v of
        Some _ \<Rightarrow> Inr v
      | None \<Rightarrow>
          (case new_for_filename (iv_filename v) of
             Inl e \<Rightarrow> Inl e
           | Inr st \<Rightarrow>
               (case get_next_image st of
                  Inl e \<Rightarrow> Inl e
                | Inr img \<Rightarrow> Inr (v\<lparr>iv_store := Some st, iv_img := Some img\<rparr>))))"

definition imgstore_close :: "imgstorevideo \<Rightarrow> imgstorevideo" where
  "imgstore_close v = v\<lparr>iv_store := None\<rparr>"

text \<open>
  \<^verbatim>\<open>
  if 'metadata.yaml' not in self.filename:
      self.filename = os.path.join(self.filename, 'metadata.yaml')
  self.filename = os.path.abspath(self.filename)
  self.__store = None
  self.open()
  \<close>
  The membership test and the join raise \<open>TypeError\<close> on a file name that is no string.
\<close>

definition imgstorevideo_new ::
  "opener \<Rightarrow> string \<Rightarrow> pathlike \<Rightarrow> bool \<Rightarrow> error + imgstorevideo" where
  "imgstorevideo_new new_for_filename cwd filename index_by_original =
     (case filename of
        Str f \<Rightarrow>
          (let f1 = (if \<not> sublist ''metadata.yaml'' f then path_join f ''metadata.yaml'' else f);
               f2 = abspath cwd f1
           in imgstore_open new_for_filename
                \<lparr>iv_filename = f2, iv_index_by_original = index_by_original,
                 iv_store = None, iv_img = None\<rparr>)
      | _ \<Rightarrow> Inl TypeError)"

definition imgstore_frames :: "imgstorevideo \<Rightarrow> error + nat" where
  "imgstore_frames v =
     (case iv_store v of
        None \<Rightarrow> Inl AttributeError
      | Some st \<Rightarrow> Inr (length (store_images st)))"

definition imgstore_channels :: "imgstorevideo \<Rightarrow> error + nat" where
  "imgstore_channels v =
     (case iv_img v of
        None \<Rightarrow> Inl AttributeError
      | Some img \<Rightarrow> if length (shape img) < 3 then Inr 1 else Inr (shape img ! 2))"

definition imgstore_width :: "imgstorevideo \<Rightarrow> error + nat" where
  "imgstore_width v = shape_at (iv_img v) 1"

definition imgstore_height :: "imgstorevideo \<Rightarrow> error + nat" where
  "imgstore_height v = shape_at (iv_img v) 0"

text \<open>
  \<^verbatim>\<open>
  if not self.imgstore: self.open()
  if self.index_by_original:
      img, (frame_number, frame_timestamp) = self.__store.get_image(frame_number)
  else:
      img, (frame_number, frame_timestamp) = self.__store.get_image(frame_number=None,
                                                                    frame_index=frame_number)
  if img.ndim == 2: img = img[:, :, None]
  return img
  \<close>
\<close>

definition imgstore_get_frame ::
  "opener \<Rightarrow> imgstorevideo \<Rightarrow> int \<Rightarrow> (error + pixel ndarray) \<times> imgstorevideo" where
  "imgstore_get_frame new_for_filename v frame_number =
     (case imgstore_open new_for_filename v of
        Inl e \<Rightarrow> (Inl e, v)
      | Inr v' \<Rightarrow>
          (case iv_store v' of
             None \<Rightarrow> (Inl AttributeError, v')
           | Some st \<Rightarrow>
               (case (if iv_index_by_original v' then get_image_by_number st frame_number
                      else get_image_by_index st frame_number) of
                  Inl e \<Rightarrow> (Inl e, v')
                | Inr img \<Rightarrow>
                    (Inr (if length (shape img) = 2 then add_last_axis img else img), v'))))"

section \<open>\<open>Video\<close>\<close>

datatype backend =
    HDF5Backend hdf5video
  | NumpyBackend numpyvideo
  | MediaBackend mediavideo
  | ImgStoreBackend imgstorevideo

record video =
  backend :: backend

definition video_frames :: "video \<Rightarrow> error + nat" where
  "video_frames v =
     (case backend v of
        HDF5Backend b \<Rightarrow> hdf5_frames b
      | NumpyBackend b \<Rightarrow> numpy_frames b
      | MediaBackend b \<Rightarrow> media_frames b
      | ImgStoreBackend b \<Rightarrow> imgstore_frames b)"

definition video_height :: "video \<Rightarrow> error + nat" where
  "video_height v =
     (case backend v of
        HDF5Backend b \<Rightarrow> hdf5_height b
      | NumpyBackend b \<Rightarrow> numpy_height b
      | MediaBackend b \<Rightarrow> media_height b
      | ImgStoreBackend b \<Rightarrow> imgstore_height b)"

definition video_width :: "video \<Rightarrow> error + nat" where
  "video_width v =
     (case backend v of
        HDF5Backend b \<Rightarrow> hdf5_width b
      | NumpyBackend b \<Rightarrow> numpy_width b
      | MediaBackend b \<Rightarrow> media_width b
      | ImgStoreBackend b \<Rightarrow> imgstore_width b)"

definition video_channels :: "video \<Rightarrow> error + nat" where
  "video_channels v =
     (case backend v of
        HDF5Backend b \<Rightarrow> hdf5_channels b
      | NumpyBackend b \<Rightarrow> numpy_channels b
      | MediaBackend b \<Rightarrow> media_channels b
      | ImgStoreBackend b \<Rightarrow> imgstore_channels b)"

text \<open>\<open>Video.shape\<close>: \<open>(self.frames, self.height, self.width, self.channels)\<close>.\<close>

definition video_shape :: "video \<Rightarrow> error + nat list" where
  "video_shape v =
     (case video_frames v of Inl e \<Rightarrow> Inl e | Inr f \<Rightarrow>
      case video_height v of Inl e \<Rightarrow> Inl e | Inr h \<Rightarrow>
      case video_width v of Inl e \<Rightarrow> Inl e | Inr w \<Rightarrow>
      case video_channels v of Inl e \<Rightarrow> Inl e | Inr c \<Rightarrow> Inr [f, h, w, c])"

text \<open>
  \<open>Video.get_frame\<close> delegates to the backend. The media backend may return \<open>None\<close>
  (a failed read with neither conversion applied); the media reader and the image
  store may change state, so the video is returned with the frame.
\<close>

definition video_get_frame ::
  "(pixel \<Rightarrow> int) \<Rightarrow> opener \<Rightarrow> video \<Rightarrow> int \<Rightarrow>
   (error + pixel ndarray option) \<times> video" where
  "video_get_frame times_255 new_for_filename v idx =
     (case backend v of
        HDF5Backend b \<Rightarrow> (map_sum id Some (hdf5_get_frame times_255 b idx), v)
      | NumpyBackend b \<Rightarrow> (map_sum id Some (numpy_get_frame b idx), v)
      | MediaBackend b \<Rightarrow>
          (let (r, b') = media_get_frame b idx None in (r, v\<lparr>backend := MediaBackend b'\<rparr>))
      | ImgStoreBackend b \<Rightarrow>
          (let (r, b') = imgstore_get_frame new_for_filename b idx
           in (map_sum id Some r, v\<lparr>backend := ImgStoreBackend b'\<rparr>)))"

text \<open>
  \<open>Video.from_filename\<close>, called without further arguments (the backends get their
  defaults):
  \<^verbatim>\<open>
  filename = Video.fixup_path(filename)
  if filename.lower().endswith(("h5", "hdf5")):
      return cls(backend=HDF5Video(filename=filename, *args, **kwargs))
  elif filename.endswith(("npy")):
      return cls(backend=NumpyVideo(filename=filename, *args, **kwargs))
  elif filename.lower().endswith(("mp4", "avi")):
      return cls(backend=MediaVideo(filename=filename, *args, **kwargs))
  elif os.path.isdir(filename) or "metadata.yaml" in filename:
      return cls(backend=ImgStoreVideo(filename=filename, *args, **kwargs))
  else:
      raise ValueError("Could not detect backend for specified filename.")
  \<close>
  A value that is no string has no \<open>lower\<close>: \<open>AttributeError\<close>.
\<close>

definition make_video :: "(error + 'b) \<Rightarrow> ('b \<Rightarrow> backend) \<Rightarrow> error + video" where
  "make_video r wrap =
     (case r of Inl e \<Rightarrow> Inl e | Inr b \<Rightarrow> Inr \<lparr>backend = wrap b\<rparr>)"

definition from_filename :: "fs \<Rightarrow> opener \<Rightarrow> string \<Rightarrow> pathlike \<Rightarrow> error + video" where
  "from_filename fs new_for_filename cwd filename =
     (case fixup_path fs filename of
        Inl e \<Rightarrow> Inl e
      | Inr (Str f) \<Rightarrow>
          if suffix ''h5'' (lower f) \<or> suffix ''hdf5'' (lower f) then
            make_video (hdf5video_new fs (Str f) DsNone ''channels_last'' True) HDF5Backend
          else if suffix ''npy'' f then
            make_video (numpyvideo_new fs (Str f)) NumpyBackend
          else if suffix ''mp4'' (lower f) \<or> suffix ''avi'' (lower f) then
            make_video (mediavideo_new fs (Str f) None True) MediaBackend
          else if isdir fs f \<or> sublist ''metadata.yaml'' f then
            make_video (imgstorevideo_new new_for_filename cwd (Str f) True) ImgStoreBackend
          else Inl ValueError
      | Inr _ \<Rightarrow> Inl AttributeError)"

section \<open>\<open>Augmenter\<close>\<close>

text \<open>Python's \<open>xs[st:end]\<close> for \<open>0 \<le> st\<close> and \<open>0 \<le> end\<close>.\<close>

definition slice :: "'a list \<Rightarrow> nat \<Rightarrow> nat \<Rightarrow> 'a list" where
  "slice xs st en = take (en - st) (drop st xs)"

text \<open>The running sums of \<open>np.cumsum\<close>.\<close>

fun cumsum :: "nat \<Rightarrow> nat list \<Rightarrow> nat list" where
  "cumsum acc [] = []"
| "cumsum acc (x # xs) = (acc + x) # cumsum (acc + x) xs"

text \<open>
  \<open>np.array_split(ary, n)\<close> for a scalar \<open>n\<close>:
  \<^verbatim>\<open>
  Nsections = int(indices_or_sections)
  if Nsections <= 0:
      raise ValueError('number sections must be larger than 0.')
  Neach_section, extras = divmod(Ntotal, Nsections)
  section_sizes = ([0] + extras * [Neach_section+1] +
                   (Nsections-extras) * [Neach_section])
  div_points = _nx.array(section_sizes, dtype=_nx.intp).cumsum()
  sub_arys = []
  for i in range(Nsections):
      st = div_points[i]; end = div_points[i + 1]
      sub_arys.append(sary[st:end])
  \<close>
\<close>

definition array_split :: "'a list \<Rightarrow> int \<Rightarrow> error + 'a list list" where
  "array_split ary indices_or_sections =
     (if indices_or_sections \<le> 0 then Inl ValueError
      else
        (let Nsections = nat indices_or_sections;
             Neach_section = length ary div Nsections;
             extras = length ary mod Nsections;
             section_sizes = [0] @ replicate extras (Neach_section + 1)
                             @ replicate (Nsections - extras) Neach_section;
             div_points = cumsum 0 section_sizes
         in Inr (map (\<lambda>i. slice ary (div_points ! i) (div_points ! (i + 1)))
                   [0..<Nsections])))"

text \<open>
  \<open>np.ceil(self.num_samples / self.batch_size)\<close>: true division of two Python
  integers (\<open>ZeroDivisionError\<close> on a zero batch size), computed exactly.
\<close>

definition num_batches :: "nat \<Rightarrow> int \<Rightarrow> error + int" where
  "num_batches num_samples batch_size =
     (if batch_size = 0 then Inl ZeroDivisionError
      else Inr \<lceil>(of_nat num_samples :: rat) / of_int batch_size\<rceil>)"

text \<open>
  \<open>np.random.shuffle(x)\<close>, in place:
  \<^verbatim>\<open>
  for i in reversed(range(1, n)):
      j = random_interval(i)      # a draw from 0..i
      x[i], x[j] = x[j], x[i]
  \<close>
  The random generator is a parameter: \<open>rnd i\<close> is the number drawn at step \<open>i\<close>,
  reduced into \<open>0..i\<close>.
\<close>

definition swap :: "'a list \<Rightarrow> nat \<Rightarrow> nat \<Rightarrow> 'a list" where
  "swap xs i j = xs[i := xs ! j, j := xs ! i]"

fun shuffle_from :: "(nat \<Rightarrow> nat) \<Rightarrow> nat \<Rightarrow> 'a list \<Rightarrow> 'a list" where
  "shuffle_from rnd 0 xs = xs"
| "shuffle_from rnd (Suc i) xs =
     shuffle_from rnd i (swap xs (Suc i) (rnd (Suc i) mod (Suc (Suc i))))"

definition np_random_shuffle :: "(nat \<Rightarrow> nat) \<Rightarrow> 'a list \<Rightarrow> 'a list" where
  "np_random_shuffle rnd xs = shuffle_from rnd (length xs - 1) xs"

record ('x, 'p) augmenter =
  aug_X :: "'x list"
  aug_Y :: "'x list option"
  aug_points :: "'p list list list option"
  aug_output_names :: "string list option"
  aug_batch_size :: int
  aug_shuffle_initially :: bool
  aug_batches :: "nat list list"

definition num_samples :: "('x, 'p) augmenter \<Rightarrow> nat" where
  "num_samples a = length (aug_X a)"

text \<open>
  \<^verbatim>\<open>
  def shuffle(self, batches_only=False):
      if batches_only:
          np.random.shuffle(self.batches)
      else:
          all_idx = np.arange(self.num_samples)
          np.random.shuffle(all_idx)
          self.batches = np.array_split(
              all_idx, np.ceil(self.num_samples / self.batch_size))
  \<close>
\<close>

definition shuffle ::
  "(nat \<Rightarrow> nat) \<Rightarrow> bool \<Rightarrow> ('x, 'p) augmenter \<Rightarrow> error + ('x, 'p) augmenter" where
  "shuffle rnd batches_only a =
     (if batches_only then Inr (a\<lparr>aug_batches := np_random_shuffle rnd (aug_batches a)\<rparr>)
      else
        (let all_idx = np_random_shuffle rnd [0..<num_samples a] in
         case num_batches (num_samples a) (aug_batch_size a) of
           Inl e \<Rightarrow> Inl e
         | Inr k \<Rightarrow>
             (case array_split all_idx k of
                Inl e \<Rightarrow> Inl e
              | Inr bs \<Rightarrow> Inr (a\<lparr>aug_batches := bs\<rparr>))))"

text \<open>
  The batching part of \<open>__attrs_post_init__\<close> (the rest builds the external library's
  augmentation objects):
  \<^verbatim>\<open>
  all_idx = np.arange(self.num_samples)
  self.batches = np.array_split(all_idx, np.ceil(self.num_samples / self.batch_size))
  if self.shuffle_initially:
      self.shuffle()
  \<close>
\<close>

definition augmenter_new ::
  "(nat \<Rightarrow> nat) \<Rightarrow> 'x list \<Rightarrow> 'x list option \<Rightarrow> 'p list list list option \<Rightarrow>
   string list option \<Rightarrow> int \<Rightarrow> bool \<Rightarrow> error + ('x, 'p) augmenter" where
  "augmenter_new rnd X Y points output_names batch_size shuffle_initially =
     (case num_batches (length X) batch_size of
        Inl e \<Rightarrow> Inl e
      | Inr k \<Rightarrow>
          (case array_split [0..<length X] k of
             Inl e \<Rightarrow> Inl e
           | Inr bs \<Rightarrow>
               (let a = \<lparr>aug_X = X, aug_Y = Y, aug_points = points,
                          aug_output_names = output_names, aug_batch_size = batch_size,
                          aug_shuffle_initially = shuffle_initially, aug_batches = bs\<rparr>
                in if shuffle_initially then shuffle rnd False a else Inr a)))"

definition augmenter_len :: "('x, 'p) augmenter \<Rightarrow> nat" where
  "augmenter_len a = length (aug_batches a)"

text \<open>\<open>xs[idx]\<close> for a list of indices (\<open>[xs[i] for i in idx]\<close>).\<close>

definition select :: "'a list \<Rightarrow> nat list \<Rightarrow> error + 'a list" where
  "select xs idx =
     (if \<forall>i \<in> set idx. i < length xs then Inr (map (\<lambda>i. xs ! i) idx) else Inl IndexError)"

text \<open>
  The inner loop of \<open>__getitem__\<close> that cuts one frame's augmented points back into
  instances:
  \<^verbatim>\<open>
  frame_point_arrays = []
  offset = 0
  for point_count in points_per_instance_per_frame[i]:
      inst_points = frame[offset : offset + point_count]
      frame_point_arrays.append(inst_points)
      offset += point_count
  \<close>
\<close>

fun split_frame :: "nat \<Rightarrow> nat list \<Rightarrow> 'p list \<Rightarrow> 'p list list" where
  "split_frame offset [] frame = []"
| "split_frame offset (point_count # counts) frame =
     slice frame offset (offset + point_count)
     # split_frame (offset + point_count) counts frame"

text \<open>
  The points branch of \<open>__getitem__\<close> up to \<open>split_points\<close>. The keypoint augmentation
  of the external library is the parameter \<open>augment_keypoints\<close>: from the batch's images
  and each frame's combined points to each frame's augmented points. The outer loop
  reads \<open>points_per_instance_per_frame[i]\<close> for every augmented frame (\<open>IndexError\<close>
  past its end).
\<close>

definition split_points ::
  "('x list \<Rightarrow> 'p list list \<Rightarrow> 'p list list) \<Rightarrow> 'x list \<Rightarrow> 'p list list list \<Rightarrow>
   error + 'p list list list" where
  "split_points augment_keypoints X frames_in_batch =
     (let points_per_instance_per_frame = map (map length) frames_in_batch;
          koi_in_frame = map (\<lambda>frame. if frame \<noteq> [] then concat frame else []) frames_in_batch;
          aug_points_in_frames = augment_keypoints X koi_in_frame
      in if length aug_points_in_frames > length points_per_instance_per_frame
         then Inl IndexError
         else Inr (map (\<lambda>i. split_frame 0 (points_per_instance_per_frame ! i)
                                (aug_points_in_frames ! i))
                     [0..<length aug_points_in_frames]))"

text \<open>
  What \<open>__getitem__\<close> returns as \<open>Y\<close>: augmented target images, the split points, or
  whatever \<open>datagen\<close> makes of the split points; with \<open>output_names\<close>, one copy under
  every name.
\<close>

datatype ('x, 'p, 'y) target =
    Images "'x list"
  | Points "'p list list list"
  | Generated 'y
  | Named "(string \<times> ('x, 'p, 'y) target) list"

definition getitem ::
  "('x list \<Rightarrow> 'x list) \<Rightarrow> ('x list \<Rightarrow> 'p list list \<Rightarrow> 'p list list) \<Rightarrow>
   ('p list list list \<Rightarrow> 'y) option \<Rightarrow> ('x, 'p) augmenter \<Rightarrow> int \<Rightarrow>
   error + ('x list \<times> ('x, 'p, 'y) target)" where
  "getitem augment_images augment_keypoints datagen a batch_idx =
     (case py_index (length (aug_batches a)) batch_idx of
        Inl e \<Rightarrow> Inl e
      | Inr k \<Rightarrow>
          (let idx = aug_batches a ! k in
           case select (aug_X a) idx of
             Inl e \<Rightarrow> Inl e
           | Inr X0 \<Rightarrow>
               (let X = augment_images X0 in
                case (case aug_Y a of
                        Some Y0 \<Rightarrow>
                          (case select Y0 idx of
                             Inl e \<Rightarrow> Inl e
                           | Inr Y1 \<Rightarrow> Inr (Images (augment_images Y1)))
                      | None \<Rightarrow>
                          (case aug_points a of
                             Some pts \<Rightarrow>
                               (case select pts idx of
                                  Inl e \<Rightarrow> Inl e
                                | Inr frames_in_batch \<Rightarrow>
                                    (case split_points augment_keypoints X frames_in_batch of
                                       Inl e \<Rightarrow> Inl e
                                     | Inr sp \<Rightarrow>
                                         (case datagen of
                                            Some g \<Rightarrow> Inr (Generated (g sp))
                                          | None \<Rightarrow> Inr (Points sp))))
                           | None \<Rightarrow> Inl UnboundLocalError))
                of
                  Inl e \<Rightarrow> Inl e
                | Inr Y \<Rightarrow>
                    (case aug_output_names a of
                       Some names \<Rightarrow> Inr (X, Named (map (\<lambda>n. (n, Y)) names))
                     | None \<Rightarrow> Inr (X, Y)))))"

text \<open>
  The batching invariant: the batches are \<open>ceil(num_samples / batch_size)\<close> many, and
  together they hold every sample index \<open>0..num_samples-1\<close> exactly once.
\<close>

definition batched :: "('x, 'p) augmenter \<Rightarrow> bool" where
  "batched a =
     (num_batches (num_samples a) (aug_batch_size a) = Inr (int (length (aug_batches a)))
      \<and> mset (concat (aug_batches a)) = mset [0..<num_samples a])"

text \<open>
  A name with none of the endings \<open>from_filename\<close> tests before it looks for an image
  store.
\<close>

definition no_known_suffix :: "string \<Rightarrow> bool" where
  "no_known_suffix f =
     (\<not> suffix ''h5'' (lower f) \<and> \<not> suffix ''hdf5'' (lower f) \<and> \<not> suffix ''npy'' f
      \<and> \<not> suffix ''mp4'' (lower f) \<and> \<not> suffix ''avi'' (lower f))"


section \<open>\<open>FormBuilderLayout\<close>\<close>

text \<open>
  The values a form field can hold and a field descriptor can give as default: a
  float (read as an exact rational), an int, a bool, a string, or \<open>None\<close>.
\<close>

datatype pyvalue =
    PFloat rat
  | PInt int
  | PBool bool
  | PStr string
  | PNone

text \<open>
  A field descriptor \<open>{name, label, type, default, options?}\<close>; \<open>options\<close> may be
  missing.
\<close>

record form_item =
  it_name :: string
  it_label :: string
  it_type :: string
  it_default :: pyvalue
  it_options :: "string option"

text \<open>\<open>s.split(c)\<close> for a one-character separator.\<close>

fun split_on :: "char \<Rightarrow> string \<Rightarrow> string list" where
  "split_on sep [] = [[]]"
| "split_on sep (c # cs) =
     (if c = sep then [] # split_on sep cs
      else (case split_on sep cs of [] \<Rightarrow> [[c]] | x # xs \<Rightarrow> (c # x) # xs))"

text \<open>\<open>xs.index(x)\<close> for an \<open>x\<close> that occurs in \<open>xs\<close>.\<close>

fun index_of :: "'a list \<Rightarrow> 'a \<Rightarrow> nat" where
  "index_of [] x = 0"
| "index_of (y # ys) x = (if y = x then 0 else Suc (index_of ys x))"

text \<open>
  The widgets of the GUI toolkit, which is not part of the repository. They are
  modelled by the state that the form builder sets and reads, with the toolkit's
  documented behaviour:
  \<^item> a new \<open>QDoubleSpinBox\<close> has the range 0 to 99.99 and the value 0; \<open>setValue\<close>
    rounds to two decimals (the rounding is the parameter \<open>round2\<close>) and clamps into
    the range;
  \<^item> a new \<open>QSpinBox\<close> has the range 0 to 99 and the value 0; \<open>setRange\<close> and
    \<open>setValue\<close> take C ints (\<open>OverflowError\<close> outside 32 bits), \<open>setValue\<close> clamps
    into the range;
  \<^item> a new \<open>QComboBox\<close> has no items and the current index -1; the first item added
    becomes the current one; \<open>currentText\<close> is the current item, or empty;
  \<^item> \<open>QLineEdit.setText\<close> cuts the text at the maximum length 32767;
  \<^item> a setter called with a value of the wrong type raises \<open>TypeError\<close>.
\<close>

datatype widget_state =
    Label string
  | PushButton string
  | DoubleSpinBox rat rat rat
  | SpinBox int int int
  | CheckBox bool
  | ComboBox "string list" int
  | LineEdit string bool

record widget =
  w_objectName :: string
  w_state :: widget_state

definition clamp :: "('a::linorder) \<Rightarrow> 'a \<Rightarrow> 'a \<Rightarrow> 'a" where
  "clamp lo hi x = max lo (min hi x)"

definition fits_c_int :: "int \<Rightarrow> bool" where
  "fits_c_int i = (- 2147483648 \<le> i \<and> i \<le> 2147483647)"

definition double_set_value :: "(rat \<Rightarrow> rat) \<Rightarrow> widget_state \<Rightarrow> pyvalue \<Rightarrow> error + widget_state" where
  "double_set_value round2 w v =
     (case w of
        DoubleSpinBox lo hi _ \<Rightarrow>
          (case v of
             PFloat d \<Rightarrow> Inr (DoubleSpinBox lo hi (clamp lo hi (round2 d)))
           | PInt i \<Rightarrow> Inr (DoubleSpinBox lo hi (clamp lo hi (round2 (of_int i))))
           | PBool b \<Rightarrow> Inr (DoubleSpinBox lo hi (clamp lo hi (round2 (if b then 1 else 0))))
           | _ \<Rightarrow> Inl TypeError)
      | _ \<Rightarrow> Inl AttributeError)"

text \<open>A Python int (or bool) passed where the toolkit takes a C int.\<close>

definition as_c_int :: "pyvalue \<Rightarrow> error + int" where
  "as_c_int v =
     (case v of
        PInt i \<Rightarrow> if fits_c_int i then Inr i else Inl OverflowError
      | PBool b \<Rightarrow> Inr (if b then 1 else 0)
      | _ \<Rightarrow> Inl TypeError)"

definition spin_set_range :: "widget_state \<Rightarrow> int \<Rightarrow> int \<Rightarrow> error + widget_state" where
  "spin_set_range w lo hi =
     (case w of
        SpinBox _ _ x \<Rightarrow>
          if fits_c_int lo \<and> fits_c_int hi
          then Inr (SpinBox lo (max lo hi) (clamp lo (max lo hi) x))
          else Inl OverflowError
      | _ \<Rightarrow> Inl AttributeError)"

definition spin_set_value :: "widget_state \<Rightarrow> pyvalue \<Rightarrow> error + widget_state" where
  "spin_set_value w v =
     (case w of
        SpinBox lo hi _ \<Rightarrow>
          (case as_c_int v of
             Inl e \<Rightarrow> Inl e
           | Inr i \<Rightarrow> Inr (SpinBox lo hi (clamp lo hi i)))
      | _ \<Rightarrow> Inl AttributeError)"

definition check_set_checked :: "pyvalue \<Rightarrow> error + widget_state" where
  "check_set_checked v =
     (case v of
        PBool b \<Rightarrow> Inr (CheckBox b)
      | PInt i \<Rightarrow> Inr (CheckBox (i \<noteq> 0))
      | _ \<Rightarrow> Inl TypeError)"

definition combo_add_item :: "widget_state \<Rightarrow> string \<Rightarrow> widget_state" where
  "combo_add_item w opt =
     (case w of
        ComboBox its cur \<Rightarrow> ComboBox (its @ [opt]) (if its = [] then 0 else cur)
      | _ \<Rightarrow> w)"

definition combo_set_current_index :: "widget_state \<Rightarrow> int \<Rightarrow> widget_state" where
  "combo_set_current_index w idx =
     (case w of
        ComboBox its _ \<Rightarrow> ComboBox its (if 0 \<le> idx \<and> idx < int (length its) then idx else - 1)
      | _ \<Rightarrow> w)"

definition line_set_text :: "pyvalue \<Rightarrow> error + widget_state" where
  "line_set_text v =
     (case v of
        PStr s \<Rightarrow> Inr (LineEdit (take 32767 s) True)
      | _ \<Rightarrow> Inl TypeError)"

text \<open>\<open>item["default"] > 99\<close>: Python compares numbers only.\<close>

definition greater_99 :: "pyvalue \<Rightarrow> error + bool" where
  "greater_99 v =
     (case v of
        PInt i \<Rightarrow> Inr (i > 99)
      | PFloat d \<Rightarrow> Inr (d > 99)
      | PBool b \<Rightarrow> Inr False
      | _ \<Rightarrow> Inl TypeError)"

text \<open>\<open>item["default"] * 10\<close> as the C int \<open>setRange\<close> takes.\<close>

definition times_10 :: "pyvalue \<Rightarrow> error + int" where
  "times_10 v =
     (case v of
        PInt i \<Rightarrow> Inr (i * 10)
      | PBool b \<Rightarrow> Inr (if b then 10 else 0)
      | _ \<Rightarrow> Inl TypeError)"

text \<open>
  The field widget of one item, before it is named:
  \<^verbatim>\<open>
  if item["type"] == "double":
      field = QtWidgets.QDoubleSpinBox()
      field.setValue(item["default"])
  elif item["type"] == "int":
      field = QtWidgets.QSpinBox()
      if item["default"] > 99:
          field.setRange(0, item["default"]*10)
      field.setValue(item["default"])
  elif item["type"] == "bool":
      field = QtWidgets.QCheckBox()
      field.setChecked(item["default"])
  elif item["type"] == "list":
      field = QtWidgets.QComboBox()
      for opt in item["options"].split(","):
          field.addItem(opt)
      if item["default"] in item["options"].split(","):
          idx = item["options"].split(",").index(item["default"])
          field.setCurrentIndex(idx)
  else:
      field = QtWidgets.QLineEdit()
      field.setText(item["default"])
      if item["type"].split("_")[0] == "file":
          field.setDisabled(True)
  \<close>
  A missing \<open>options\<close> key raises \<open>KeyError\<close>.
\<close>

definition is_file_type :: "string \<Rightarrow> bool" where
  "is_file_type t = (hd (split_on CHR ''_'' t) = ''file'')"

definition make_field :: "(rat \<Rightarrow> rat) \<Rightarrow> form_item \<Rightarrow> error + widget_state" where
  "make_field round2 item =
     (if it_type item = ''double'' then
        double_set_value round2 (DoubleSpinBox 0 (9999 / 100) 0) (it_default item)
      else if it_type item = ''int'' then
        (case greater_99 (it_default item) of
           Inl e \<Rightarrow> Inl e
         | Inr big \<Rightarrow>
             (case (if big then
                      (case times_10 (it_default item) of
                         Inl e \<Rightarrow> Inl e
                       | Inr hi \<Rightarrow> spin_set_range (SpinBox 0 99 0) 0 hi)
                    else Inr (SpinBox 0 99 0)) of
                Inl e \<Rightarrow> Inl e
              | Inr field \<Rightarrow> spin_set_value field (it_default item)))
      else if it_type item = ''bool'' then check_set_checked (it_default item)
      else if it_type item = ''list'' then
        (case it_options item of
           None \<Rightarrow> Inl KeyError
         | Some options \<Rightarrow>
             (let opts = split_on CHR '','' options;
                  field = fold (\<lambda>opt w. combo_add_item w opt) opts (ComboBox [] (- 1))
              in case it_default item of
                   PStr s \<Rightarrow>
                     if s \<in> set opts
                     then Inr (combo_set_current_index field (int (index_of opts s)))
                     else Inr field
                 | _ \<Rightarrow> Inr field))
      else
        (case line_set_text (it_default item) of
           Inl e \<Rightarrow> Inl e
         | Inr (LineEdit s en) \<Rightarrow>
             Inr (LineEdit s (if is_file_type (it_type item) then False else en))
         | Inr w \<Rightarrow> Inr w))"

text \<open>
  The rows one item adds to the layout: the label made by \<open>addRow(label + ":", field)\<close>,
  the named field and, for a file type, the button added by \<open>addRow("", file_button)\<close>
  (a row with an empty label text gets no label widget).
\<close>

definition build_item :: "(rat \<Rightarrow> rat) \<Rightarrow> form_item \<Rightarrow> error + widget list" where
  "build_item round2 item =
     (case make_field round2 item of
        Inl e \<Rightarrow> Inl e
      | Inr field \<Rightarrow>
          Inr ([\<lparr>w_objectName = [], w_state = Label (it_label item @ '':'')\<rparr>,
                \<lparr>w_objectName = it_name item, w_state = field\<rparr>]
               @ (if is_file_type (it_type item)
                  then [\<lparr>w_objectName = [],
                         w_state = PushButton (''Select '' @ it_label item)\<rparr>]
                  else [])))"

text \<open>\<open>build_form\<close> on a layout with the widgets \<open>layout\<close>: one item after the other.\<close>

fun build_form :: "(rat \<Rightarrow> rat) \<Rightarrow> widget list \<Rightarrow> form_item list \<Rightarrow> error + widget list" where
  "build_form round2 layout [] = Inr layout"
| "build_form round2 layout (item # items) =
     (case build_item round2 item of
        Inl e \<Rightarrow> Inl e
      | Inr rows \<Rightarrow> build_form round2 (layout @ rows) items)"

text \<open>
  \<^verbatim>\<open>
  if hasattr(widget, "isChecked"): val = widget.isChecked()
  elif hasattr(widget, "value"): val = widget.value()
  elif hasattr(widget, "currentText"): val = widget.currentText()
  elif hasattr(widget, "text"): val = widget.text()
  else: val = None
  \<close>
\<close>

definition get_widget_value :: "widget \<Rightarrow> pyvalue" where
  "get_widget_value w =
     (case w_state w of
        CheckBox b \<Rightarrow> PBool b
      | PushButton _ \<Rightarrow> PBool False
      | SpinBox _ _ x \<Rightarrow> PInt x
      | DoubleSpinBox _ _ x \<Rightarrow> PFloat x
      | ComboBox its cur \<Rightarrow>
          PStr (if 0 \<le> cur \<and> cur < int (length its) then its ! nat cur else [])
      | LineEdit s _ \<Rightarrow> PStr s
      | Label s \<Rightarrow> PStr s)"

definition is_label_or_button :: "widget \<Rightarrow> bool" where
  "is_label_or_button w =
     (case w_state w of Label _ \<Rightarrow> True | PushButton _ \<Rightarrow> True | _ \<Rightarrow> False)"

text \<open>
  \<^verbatim>\<open>
  widgets = [self.itemAt(i).widget() for i in range(self.count())]
  data = {w.objectName(): self.get_widget_value(w)
          for w in widgets
          if len(w.objectName())
             and type(w) not in (QtWidgets.QLabel, QtWidgets.QPushButton)}
  \<close>
  The dict is filled in the order of the widgets, a later key replacing an earlier one.
\<close>

definition get_form_data :: "widget list \<Rightarrow> (string \<rightharpoonup> pyvalue)" where
  "get_form_data layout =
     fold (\<lambda>w data. data(w_objectName w \<mapsto> get_widget_value w))
       (filter (\<lambda>w. w_objectName w \<noteq> [] \<and> \<not> is_label_or_button w) layout)
       Map.empty"

text \<open>
  A default that its widget can hold: a double between 0 and 99.99 that the spin box's
  rounding leaves alone, an int from 0 to 214748364, a bool, a list default that is one
  of the comma-separated options, a text of at most 32767 characters for every other
  type.
\<close>

definition holds_default :: "(rat \<Rightarrow> rat) \<Rightarrow> form_item \<Rightarrow> bool" where
  "holds_default round2 item =
     (if it_type item = ''double'' then
        (case it_default item of
           PFloat d \<Rightarrow> 0 \<le> d \<and> d \<le> 9999 / 100 \<and> round2 d = d
         | _ \<Rightarrow> False)
      else if it_type item = ''int'' then
        (case it_default item of PInt i \<Rightarrow> 0 \<le> i \<and> i \<le> 214748364 | _ \<Rightarrow> False)
      else if it_type item = ''bool'' then
        (case it_default item of PBool b \<Rightarrow> True | _ \<Rightarrow> False)
      else if it_type item = ''list'' then
        (case (it_default item, it_options item) of
           (PStr s, Some options) \<Rightarrow> s \<in> set (split_on CHR '','' options)
         | _ \<Rightarrow> False)
      else
        (case it_default item of PStr s \<Rightarrow> length s \<le> 32767 | _ \<Rightarrow> False))"

(*THEOREMS*)
section \<open>Verified properties: path repair\<close>

lemma find_path_exists_Some:
  "find P xs = Some q \<Longrightarrow> P q \<and> q \<in> set xs"
  by (induction xs) (auto split: if_splits)

lemma find_path_exists_None:
  "(find P xs = None) = (\<forall>q\<in>set xs. \<not> P q)"
  by (induction xs) auto

lemma fixup_path_find:
  "fixup_path fs (Str p) =
     (case find (path_exists fs) (candidates p) of
        Some q \<Rightarrow> Inr (Str q)
      | None \<Rightarrow> Inl FileNotFoundError)"
  by (simp add: fixup_path_def candidates_def Let_def)

text \<open>
  Claim C3. For a string path, \<open>Video.fixup_path\<close> tries, in this order, the path as
  given, its basename, and (only for a path ending in \<open>metadata.yaml\<close>) the name of the
  directory holding that file; it returns the first of them that exists in the file
  system. Whatever it returns exists and is one of the candidates, and it raises
  \<open>FileNotFoundError\<close> exactly when none of the candidates exists.
\<close>

theorem fixup_path_resolution_order:
  "fixup_path fs (Str p) =
     (case find (path_exists fs) (candidates p) of
        Some q \<Rightarrow> Inr (Str q)
      | None \<Rightarrow> Inl FileNotFoundError)
   \<and> (\<forall>r. fixup_path fs (Str p) = Inr r \<longrightarrow>
          (\<exists>q. r = Str q \<and> path_exists fs q \<and> q \<in> set (candidates p)))
   \<and> (\<forall>e. fixup_path fs (Str p) = Inl e \<longrightarrow>
          e = FileNotFoundError \<and> (\<forall>q\<in>set (candidates p). \<not> path_exists fs q))"
proof (cases "find (path_exists fs) (candidates p)")
  case None
  then have "\<forall>q\<in>set (candidates p). \<not> path_exists fs q"
    by (simp add: find_path_exists_None)
  with None show ?thesis
    by (simp add: fixup_path_find)
next
  case (Some q)
  then have "path_exists fs q \<and> q \<in> set (candidates p)"
    by (rule find_path_exists_Some)
  with Some show ?thesis
    by (simp add: fixup_path_find)
qed

theorem fixup_path_resolution_order_witness:
  "candidates ''/data/store/metadata.yaml'' =
     [''/data/store/metadata.yaml'', ''metadata.yaml'', ''store'']
   \<and> fixup_path (\<lambda>s. if s = ''store'' \<or> s = ''metadata.yaml'' then Some Directory else None)
         (Str ''/data/store/metadata.yaml'') = Inr (Str ''metadata.yaml'')
   \<and> fixup_path (\<lambda>s. if s = ''store'' then Some Directory else None)
         (Str ''/data/store/metadata.yaml'') = Inr (Str ''store'')
   \<and> fixup_path (\<lambda>s. if s = ''store'' then Some Directory else None)
         (Str ''/data/store/clip.mp4'') = Inl FileNotFoundError"
proof -
  note by_basename =
    fixup_path_resolution_order
      [of "\<lambda>s. if s = ''store'' \<or> s = ''metadata.yaml'' then Some Directory else None"
          "''/data/store/metadata.yaml''", THEN conjunct1]
  note by_parent =
    fixup_path_resolution_order
      [of "\<lambda>s. if s = ''store'' then Some Directory else None"
          "''/data/store/metadata.yaml''", THEN conjunct1]
  note not_found =
    fixup_path_resolution_order
      [of "\<lambda>s. if s = ''store'' then Some Directory else None"
          "''/data/store/clip.mp4''", THEN conjunct1]
  show ?thesis
    by (simp add: by_basename by_parent not_found candidates_def path_exists_def
          basename_def split_path_def rfind_def rstrip_sep_def Let_def suffix_to_prefix)
qed

text \<open>
  Claim C8. For every input that is not a string (\<open>None\<close>, an open HDF5 file, a numpy
  array), \<open>Video.fixup_path\<close> returns the input unchanged and does not raise, whatever
  the file system holds: the result does not depend on the file system.
\<close>

theorem fixup_path_non_string:
  "(\<forall>s. path \<noteq> Str s) \<Longrightarrow> fixup_path fs path = Inr path"
  by (cases path) (simp_all add: fixup_path_def)

theorem fixup_path_non_string_witness:
  "(\<forall>s. NoneObj \<noteq> Str s)
   \<and> fixup_path (\<lambda>s. None) NoneObj = Inr NoneObj
   \<and> fixup_path (\<lambda>s. Some Directory)
        (ArrayObj \<lparr>shape = [1, 1, 1, 1], elems = [0]\<rparr>)
      = Inr (ArrayObj \<lparr>shape = [1, 1, 1, 1], elems = [0]\<rparr>)"
  using fixup_path_non_string [of NoneObj "\<lambda>s. None"]
        fixup_path_non_string
          [of "ArrayObj \<lparr>shape = [1, 1, 1, 1], elems = [0]\<rparr>" "\<lambda>s. Some Directory"]
  by simp

section \<open>Verified properties: batching of the Augmenter\<close>

lemma length_split_frame: "length (split_frame off sizes xs) = length sizes"
  by (induction sizes arbitrary: off) simp_all

lemma concat_split_frame:
  "concat (split_frame off sizes xs) = slice xs off (off + sum_list sizes)"
proof (induction sizes arbitrary: off)
  case Nil
  show ?case by (simp add: slice_def)
next
  case (Cons s ss)
  have "slice xs off (off + s) @ slice xs (off + s) (off + s + sum_list ss)
        = slice xs off (off + (s + sum_list ss))"
    unfolding slice_def
    by (simp add: take_add drop_drop add.commute)
  with Cons show ?case by (simp add: add.assoc)
qed

lemma map_length_split_frame:
  "off + sum_list sizes \<le> length xs \<Longrightarrow> map length (split_frame off sizes xs) = sizes"
  by (induction sizes arbitrary: off) (auto simp: slice_def)

lemma slices_eq_split_frame:
  "map (\<lambda>i. slice xs ((off # cumsum off sizes) ! i) ((off # cumsum off sizes) ! (i + 1)))
     [0..<length sizes] = split_frame off sizes xs"
proof (induction sizes arbitrary: off)
  case Nil
  show ?case by simp
next
  case (Cons s ss)
  have "[0..<length (s # ss)] = 0 # map Suc [0..<length ss]"
    by (simp add: upt_conv_Cons map_Suc_upt del: upt_Suc)
  then show ?case using Cons[of "off + s"]
    by (simp add: o_def del: upt_Suc)
qed

lemma mset_swap_list: "i < length xs \<Longrightarrow> j < length xs \<Longrightarrow> mset (swap xs i j) = mset xs"
  unfolding swap_def by (metis mset_swap)

lemma length_swap: "length (swap xs i j) = length xs"
  by (simp add: swap_def)

lemma mset_shuffle_from: "i < length xs \<Longrightarrow> mset (shuffle_from rnd i xs) = mset xs"
proof (induction i arbitrary: xs)
  case 0 show ?case by simp
next
  case (Suc i)
  have j: "rnd (Suc i) mod Suc (Suc i) < length xs"
    using Suc.prems by (meson less_trans_Suc mod_less_divisor zero_less_Suc not_less_eq less_Suc_eq_le order_less_le_trans)
  have "mset (shuffle_from rnd i (swap xs (Suc i) (rnd (Suc i) mod Suc (Suc i))))
        = mset (swap xs (Suc i) (rnd (Suc i) mod Suc (Suc i)))"
    using Suc.prems by (intro Suc.IH) (simp add: length_swap)
  then show ?case using Suc.prems j by (simp add: mset_swap_list)
qed

lemma mset_np_random_shuffle: "mset (np_random_shuffle rnd xs) = mset xs"
  by (cases xs) (simp_all add: np_random_shuffle_def mset_shuffle_from)

lemma mset_concat_cong: "mset xss = mset yss \<Longrightarrow> mset (concat xss) = mset (concat yss)"
  by (metis mset_concat sum_mset_sum_list mset_map)

lemma section_sizes_sum:
  "0 < n \<Longrightarrow> sum_list (replicate (m mod n) (m div n + 1) @ replicate (n - m mod n) (m div n)) = (m::nat)"
proof -
  assume n: "0 < n"
  have le: "m mod n \<le> n" using n by (simp add: less_imp_le)
  have "(m mod n) * (m div n + 1) + (n - m mod n) * (m div n) = (m mod n) + ((m mod n) + (n - m mod n)) * (m div n)"
    by (simp add: algebra_simps)
  also have "\<dots> = m mod n + n * (m div n)" using le by simp
  also have "\<dots> = m" by simp
  finally show ?thesis by (simp add: sum_list_replicate)
qed

lemma array_split_eq:
  assumes "0 < k"
  shows "array_split xs k =
           Inr (split_frame 0 (replicate (length xs mod nat k) (length xs div nat k + 1)
                               @ replicate (nat k - length xs mod nat k) (length xs div nat k)) xs)"
proof -
  let ?sizes = "replicate (length xs mod nat k) (length xs div nat k + 1)
                @ replicate (nat k - length xs mod nat k) (length xs div nat k)"
  have len: "length ?sizes = nat k" using assms by simp
  have "map (\<lambda>i. slice xs ((0 # cumsum 0 ?sizes) ! i) ((0 # cumsum 0 ?sizes) ! (i + 1)))
          [0..<length ?sizes] = split_frame 0 ?sizes xs"
    by (rule slices_eq_split_frame)
  then show ?thesis using assms len
    by (simp add: array_split_def Let_def del: replicate_add upt_Suc)
qed

lemma array_split_props:
  assumes "array_split xs k = Inr bs"
  shows "0 < k \<and> length bs = nat k \<and> concat bs = xs"
proof -
  have k: "0 < k" using assms by (auto simp: array_split_def split: if_splits)
  let ?sizes = "replicate (length xs mod nat k) (length xs div nat k + 1)
                @ replicate (nat k - length xs mod nat k) (length xs div nat k)"
  have bs: "bs = split_frame 0 ?sizes xs" using assms array_split_eq[OF k, of xs] by simp
  have s: "sum_list ?sizes = length xs" using k by (intro section_sizes_sum) simp
  have "concat bs = slice xs 0 (0 + sum_list ?sizes)" unfolding bs by (rule concat_split_frame)
  then have "concat bs = xs" using s by (simp add: slice_def)
  moreover have "length bs = nat k" unfolding bs length_split_frame using k by simp
  ultimately show ?thesis using k by simp
qed

lemma array_split_total: "0 < k \<Longrightarrow> \<exists>bs. array_split xs k = Inr bs"
  by (simp add: array_split_def Let_def)

lemma num_batches_pos:
  "num_batches n b = Inr k \<Longrightarrow> (0 < k) = (0 < n \<and> 0 < b)"
proof -
  assume a: "num_batches n b = Inr k"
  then have b0: "b \<noteq> 0" and k: "k = \<lceil>(of_nat n :: rat) / of_int b\<rceil>"
    by (auto simp: num_batches_def split: if_splits)
  show ?thesis
  proof (cases "0 < n \<and> 0 < b")
    case True
    then have "0 < (of_nat n :: rat) / of_int b" by simp
    then show ?thesis using True k by simp
  next
    case False
    then have "(of_nat n :: rat) / of_int b \<le> 0" using b0
      by (cases "n = 0") (auto simp: divide_le_0_iff)
    then show ?thesis using False k by (simp add: ceiling_le_zero)
  qed
qed

lemma shuffle_batched:
  assumes "shuffle rnd only a = Inr a'"
      and "only \<longrightarrow> batched a"
  shows "batched a'"
proof (cases only)
  case True
  then have a': "a' = a\<lparr>aug_batches := np_random_shuffle rnd (aug_batches a)\<rparr>"
    using assms by (simp add: shuffle_def)
  have m: "mset (np_random_shuffle rnd (aug_batches a)) = mset (aug_batches a)"
    by (rule mset_np_random_shuffle)
  have l: "length (np_random_shuffle rnd (aug_batches a)) = length (aug_batches a)"
    using m by (metis size_mset)
  show ?thesis using assms True mset_concat_cong[OF m]
    by (simp add: batched_def a' l num_samples_def)
next
  case False
  then obtain k bs where k: "num_batches (num_samples a) (aug_batch_size a) = Inr k"
      and bs: "array_split (np_random_shuffle rnd [0..<num_samples a]) k = Inr bs"
      and a': "a' = a\<lparr>aug_batches := bs\<rparr>"
    using assms by (auto simp: shuffle_def Let_def split: sum.splits)
  from array_split_props[OF bs]
  have "0 < k" "length bs = nat k" "concat bs = np_random_shuffle rnd [0..<num_samples a]"
    by simp_all
  then show ?thesis using k
    by (simp add: batched_def a' num_samples_def mset_np_random_shuffle)
qed

lemma augmenter_new_batched:
  assumes "augmenter_new rnd X Y pts names b si = Inr a"
  shows "batched a"
proof -
  obtain k bs where k: "num_batches (length X) b = Inr k"
      and bs: "array_split [0..<length X] k = Inr bs"
    using assms by (auto simp: augmenter_new_def split: sum.splits)
  let ?a0 = "\<lparr>aug_X = X, aug_Y = Y, aug_points = pts,
               aug_output_names = names, aug_batch_size = b,
               aug_shuffle_initially = si, aug_batches = bs\<rparr>"
  from array_split_props[OF bs]
  have p: "0 < k" "length bs = nat k" "concat bs = [0..<length X]" by simp_all
  have b0: "batched ?a0" using p k by (simp add: batched_def num_samples_def)
  show ?thesis
  proof (cases si)
    case True
    then have "shuffle rnd False ?a0 = Inr a" using assms k bs
      by (simp add: augmenter_new_def Let_def)
    then show ?thesis by (rule shuffle_batched) simp
  next
    case False
    then have "a = ?a0" using assms k bs by (simp add: augmenter_new_def Let_def)
    then show ?thesis using b0 by simp
  qed
qed

lemma shuffle_total:
  assumes "0 < num_samples a" "0 < aug_batch_size a"
  shows "\<exists>a'. shuffle rnd only a = Inr a'"
proof -
  obtain k where k: "num_batches (num_samples a) (aug_batch_size a) = Inr k"
    using assms by (auto simp: num_batches_def)
  then have "0 < k" using num_batches_pos[OF k] assms by simp
  then show ?thesis using k array_split_total[of k "np_random_shuffle rnd [0..<num_samples a]"]
    by (auto simp: shuffle_def Let_def)
qed

lemma augmenter_new_total:
  "(\<exists>a. augmenter_new rnd X Y pts names b si = Inr a) = (0 < length X \<and> 0 < b)"
proof
  assume "\<exists>a. augmenter_new rnd X Y pts names b si = Inr a"
  then obtain a where a: "augmenter_new rnd X Y pts names b si = Inr a" ..
  then obtain k bs where k: "num_batches (length X) b = Inr k"
      and bs: "array_split [0..<length X] k = Inr bs"
    by (auto simp: augmenter_new_def split: sum.splits)
  from array_split_props[OF bs] have "0 < k" by simp
  then show "0 < length X \<and> 0 < b" using num_batches_pos[OF k] by simp
next
  assume pos: "0 < length X \<and> 0 < b"
  then obtain k where k: "num_batches (length X) b = Inr k" by (auto simp: num_batches_def)
  then have kp: "0 < k" using num_batches_pos[OF k] pos by simp
  then obtain bs where bs: "array_split [0..<length X] k = Inr bs"
    using array_split_total[of k "[0..<length X]"] by auto
  let ?a0 = "\<lparr>aug_X = X, aug_Y = Y, aug_points = pts,
               aug_output_names = names, aug_batch_size = b,
               aug_shuffle_initially = si, aug_batches = bs\<rparr>"
  have "\<exists>a'. shuffle rnd False ?a0 = Inr a'"
    using pos by (intro shuffle_total) (simp_all add: num_samples_def)
  then show "\<exists>a. augmenter_new rnd X Y pts names b si = Inr a"
    using k bs by (auto simp: augmenter_new_def Let_def)
qed

lemma batched_len:
  assumes "batched a"
  shows "aug_batch_size a \<noteq> 0
        \<and> int (augmenter_len a) = \<lceil>(of_nat (num_samples a) :: rat) / of_int (aug_batch_size a)\<rceil>
        \<and> mset (concat (aug_batches a)) = mset [0..<num_samples a]"
  using assms by (auto simp: batched_def num_batches_def augmenter_len_def split: if_splits)

text \<open>
  Claim C9. The Augmenter keeps the batching invariant: after a construction that
  returns, and after every \<open>shuffle\<close> (batches only or not), \<open>batches\<close> holds
  \<open>ceil(num_samples / batch_size)\<close> index lists whose concatenation is a permutation of
  \<open>0..num_samples-1\<close>, and \<open>__len__\<close> is that number of batches. The construction returns
  exactly for a non-empty \<open>X\<close> and a positive batch size, and then every \<open>shuffle\<close>
  returns.
\<close>

theorem augmenter_batching:
  fixes X :: "'x list" and pts :: "'p list list list option" and c :: "('x, 'p) augmenter"
  shows
  "(\<forall>a. augmenter_new rnd X Y pts names b si = Inr a \<longrightarrow> batched a)
   \<and> (\<forall>a a' :: ('x, 'p) augmenter. batched a \<and> shuffle rnd only a = Inr a' \<longrightarrow> batched a')
   \<and> (\<forall>a :: ('x, 'p) augmenter. batched a \<longrightarrow>
          aug_batch_size a \<noteq> 0
        \<and> int (augmenter_len a) = \<lceil>(of_nat (num_samples a) :: rat) / of_int (aug_batch_size a)\<rceil>
        \<and> mset (concat (aug_batches a)) = mset [0..<num_samples a])
   \<and> augmenter_len c = length (aug_batches c)
   \<and> ((\<exists>a. augmenter_new rnd X Y pts names b si = Inr a) = (0 < length X \<and> 0 < b))
   \<and> (\<forall>a :: ('x, 'p) augmenter. 0 < num_samples a \<and> 0 < aug_batch_size a \<longrightarrow>
          (\<exists>a'. shuffle rnd only a = Inr a'))"
proof -
  have 1: "\<forall>a. augmenter_new rnd X Y pts names b si = Inr a \<longrightarrow> batched a"
    by (simp add: augmenter_new_batched)
  have 2: "\<forall>a a' :: ('x, 'p) augmenter. batched a \<and> shuffle rnd only a = Inr a' \<longrightarrow> batched a'"
    using shuffle_batched by blast
  have 3: "\<forall>a :: ('x, 'p) augmenter. batched a \<longrightarrow>
          aug_batch_size a \<noteq> 0
        \<and> int (augmenter_len a) = \<lceil>(of_nat (num_samples a) :: rat) / of_int (aug_batch_size a)\<rceil>
        \<and> mset (concat (aug_batches a)) = mset [0..<num_samples a]"
    using batched_len by blast
  have 4: "augmenter_len c = length (aug_batches c)" by (simp add: augmenter_len_def)
  have 5: "(\<exists>a. augmenter_new rnd X Y pts names b si = Inr a) = (0 < length X \<and> 0 < b)"
    by (rule augmenter_new_total)
  have 6: "\<forall>a :: ('x, 'p) augmenter. 0 < num_samples a \<and> 0 < aug_batch_size a \<longrightarrow>
          (\<exists>a'. shuffle rnd only a = Inr a')"
    using shuffle_total by blast
  from 1 2 3 4 5 6 show ?thesis by blast
qed

theorem augmenter_batching_witness:
  "batched \<lparr>aug_X = [10, 20, 30, 40, 50 :: nat], aug_Y = None,
            aug_points = (None :: nat list list list option), aug_output_names = None,
            aug_batch_size = 2, aug_shuffle_initially = False,
            aug_batches = [[0, 1], [2, 3], [4]]\<rparr>
   \<and> batched \<lparr>aug_X = [10, 20, 30, 40, 50 :: nat], aug_Y = None,
            aug_points = (None :: nat list list list option), aug_output_names = None,
            aug_batch_size = 2, aug_shuffle_initially = False,
            aug_batches = [[2, 3], [4], [0, 1]]\<rparr>
   \<and> augmenter_len \<lparr>aug_X = [10, 20, 30, 40, 50 :: nat], aug_Y = None,
            aug_points = (None :: nat list list list option), aug_output_names = None,
            aug_batch_size = 2, aug_shuffle_initially = False,
            aug_batches = [[2, 3], [4], [0, 1]]\<rparr> = 3"
proof -
  let ?a0 = "\<lparr>aug_X = [10, 20, 30, 40, 50 :: nat], aug_Y = None,
            aug_points = (None :: nat list list list option), aug_output_names = None,
            aug_batch_size = 2, aug_shuffle_initially = False,
            aug_batches = [[0, 1], [2, 3], [4]]\<rparr>"
  let ?a1 = "\<lparr>aug_X = [10, 20, 30, 40, 50 :: nat], aug_Y = None,
            aug_points = (None :: nat list list list option), aug_output_names = None,
            aug_batch_size = 2, aug_shuffle_initially = False,
            aug_batches = [[2, 3], [4], [0, 1]]\<rparr>"
  have new: "augmenter_new (\<lambda>i. 0) [10, 20, 30, 40, 50 :: nat] None
               (None :: nat list list list option) None 2 False = Inr ?a0"
    by code_simp
  have shuf: "shuffle (\<lambda>i. 0) True ?a0 = Inr ?a1"
    by code_simp
  note inv = augmenter_batching
               [of "\<lambda>i. 0" "[10, 20, 30, 40, 50 :: nat]" None
                   "None :: nat list list list option" None 2 False True ?a1]
  have b0: "batched ?a0" using inv new by blast
  have b1: "batched ?a1" using inv b0 shuf by blast
  have "augmenter_len ?a1 = 3" using inv by simp
  with b0 b1 show ?thesis by blast
qed

section \<open>Verified properties: realigning augmented points\<close>

lemma combine_frames:
  "map (\<lambda>frame. if frame \<noteq> [] then concat frame else []) frames = map concat frames"
  by (induction frames) auto

text \<open>
  Claim C7. In the points branch of \<open>Augmenter.__getitem__\<close>, the augmented flat point
  list of each frame is cut back into per-instance point lists: \<open>split_points\<close> has one
  entry per frame of the batch, each entry has as many instances as the input frame,
  each instance has as many points as the input instance, and the instances of a frame,
  concatenated in order, are exactly that frame's augmented flat list. The keypoint
  augmentation of the external library returns, for every frame, as many points as it
  was given.
\<close>

theorem split_points_realign:
  assumes "map length (augment_keypoints X (map concat frames))
           = map (\<lambda>frame. length (concat frame)) frames"
  shows "\<exists>sp. split_points augment_keypoints X frames = Inr sp
           \<and> length sp = length frames
           \<and> (\<forall>i < length frames.
                 length (sp ! i) = length (frames ! i)
               \<and> map length (sp ! i) = map length (frames ! i)
               \<and> concat (sp ! i) = augment_keypoints X (map concat frames) ! i)"
proof -
  let ?aug = "augment_keypoints X (map concat frames)"
  let ?counts = "map (map length) frames"
  let ?sp = "map (\<lambda>i. split_frame 0 (?counts ! i) (?aug ! i)) [0..<length ?aug]"
  have len: "length ?aug = length frames"
    using assms by (metis length_map)
  have run: "split_points augment_keypoints X frames = Inr ?sp"
    using len by (simp add: split_points_def combine_frames Let_def)
  have each: "length (?sp ! i) = length (frames ! i)
               \<and> map length (?sp ! i) = map length (frames ! i)
               \<and> concat (?sp ! i) = ?aug ! i" if i: "i < length frames" for i
  proof -
    have "map length ?aug ! i = map (\<lambda>frame. length (concat frame)) frames ! i"
      using assms by simp
    then have l: "length (?aug ! i) = sum_list (map length (frames ! i))"
      using i len by (simp add: length_concat)
    have spi: "?sp ! i = split_frame 0 (map length (frames ! i)) (?aug ! i)"
      using i len by simp
    have "concat (?sp ! i) = slice (?aug ! i) 0 (0 + sum_list (map length (frames ! i)))"
      unfolding spi by (rule concat_split_frame)
    then have c: "concat (?sp ! i) = ?aug ! i" using l by (simp add: slice_def)
    have m: "map length (?sp ! i) = map length (frames ! i)"
      unfolding spi by (rule map_length_split_frame) (simp add: l)
    have "length (?sp ! i) = length (frames ! i)"
      unfolding spi by (simp add: length_split_frame)
    with c m show ?thesis by simp
  qed
  have "length ?sp = length frames" using len by simp
  with run each show ?thesis by blast
qed

theorem split_points_realign_witness:
  "map length ((\<lambda>X kps. map (map (\<lambda>(x, y). (y, x + 1))) kps) [0::nat, 0]
       (map concat [[[(1::int, 2::int), (3, 4)], [(5, 6)]], []]))
     = map (\<lambda>frame. length (concat frame)) [[[(1::int, 2::int), (3, 4)], [(5, 6)]], []]
   \<and> split_points (\<lambda>X kps. map (map (\<lambda>(x, y). (y, x + 1))) kps) [0::nat, 0]
         [[[(1::int, 2::int), (3, 4)], [(5, 6)]], []]
       = Inr [[[(2, 2), (4, 4)], [(6, 6)]], []]
   \<and> (\<exists>sp. split_points (\<lambda>X kps. map (map (\<lambda>(x, y). (y, x + 1))) kps) [0::nat, 0]
               [[[(1::int, 2::int), (3, 4)], [(5, 6)]], []] = Inr sp
           \<and> length sp = 2
           \<and> concat (sp ! 0) = [(2, 2), (4, 4), (6, 6)])"
proof -
  have h: "map length ((\<lambda>X kps. map (map (\<lambda>(x, y). (y, x + 1))) kps) [0::nat, 0]
       (map concat [[[(1::int, 2::int), (3, 4)], [(5, 6)]], []]))
     = map (\<lambda>frame. length (concat frame)) [[[(1::int, 2::int), (3, 4)], [(5, 6)]], []]"
    by simp
  have v: "split_points (\<lambda>X kps. map (map (\<lambda>(x, y). (y, x + 1))) kps) [0::nat, 0]
         [[[(1::int, 2::int), (3, 4)], [(5, 6)]], []]
       = Inr [[[(2, 2), (4, 4)], [(6, 6)]], []]"
    by code_simp
  from split_points_realign
         [of "\<lambda>X kps. map (map (\<lambda>(x, y). (y, x + 1))) kps" "[0::nat, 0]"
             "[[[(1::int, 2::int), (3, 4)], [(5, 6)]], []]", OF h]
  obtain sp where
    sp: "split_points (\<lambda>X kps. map (map (\<lambda>(x, y). (y, x + 1))) kps) [0::nat, 0]
           [[[(1::int, 2::int), (3, 4)], [(5, 6)]], []] = Inr sp"
      "length sp = length [[[(1::int, 2::int), (3, 4)], [(5, 6)]], []]"
    by blast
  from sp v have "sp = [[[(2, 2), (4, 4)], [(6, 6)]], []]" by simp
  with sp h v show ?thesis by simp
qed

section \<open>Verified properties: construction of the backends\<close>

lemma h5_open_not_file: "\<not> isfile fs name \<Longrightarrow> h5_open fs name = Inl FileNotFoundError"
  by (auto simp: isfile_def h5_open_def split: option.splits node.splits)

lemma np_load_not_file: "\<not> isfile fs name \<Longrightarrow> np_load fs name = Inl FileNotFoundError"
  by (auto simp: isfile_def np_load_def split: option.splits node.splits)

text \<open>
  Claim C5. Backend construction fails at once on invalid input (one pass through the
  constructor, nothing is tried again): an \<open>input_format\<close> other than
  \<open>channels_first\<close> and \<open>channels_last\<close> makes \<open>HDF5Video\<close> raise \<open>ValueError\<close>, whatever
  the other arguments are, and a string file name that names no file makes \<open>HDF5Video\<close>
  (its \<open>input_format\<close> being one of the two), \<open>NumpyVideo\<close> and \<open>MediaVideo\<close> raise
  \<open>FileNotFoundError\<close>. The validator of \<open>input_format\<close> runs before the file is opened.
\<close>

theorem construction_failures:
  "(input_format \<noteq> ''channels_first'' \<and> input_format \<noteq> ''channels_last'' \<longrightarrow>
      hdf5video_new fs filename dataset input_format convert_range = Inl ValueError)
   \<and> ((input_format = ''channels_first'' \<or> input_format = ''channels_last'') \<and> \<not> isfile fs name \<longrightarrow>
      hdf5video_new fs (Str name) dataset input_format convert_range = Inl FileNotFoundError)
   \<and> (\<not> isfile fs name \<longrightarrow> numpyvideo_new fs (Str name) = Inl FileNotFoundError)
   \<and> (\<not> isfile fs name \<longrightarrow> mediavideo_new fs (Str name) grayscale bgr = Inl FileNotFoundError)"
proof (intro conjI impI)
  assume "input_format \<noteq> ''channels_first'' \<and> input_format \<noteq> ''channels_last''"
  then show "hdf5video_new fs filename dataset input_format convert_range = Inl ValueError"
    by (simp add: hdf5video_new_def check_def)
next
  assume a: "(input_format = ''channels_first'' \<or> input_format = ''channels_last'') \<and> \<not> isfile fs name"
  then have "h5_open fs name = Inl FileNotFoundError" by (simp add: h5_open_not_file)
  then have "init_file fs (Str name) = Inl FileNotFoundError" by (simp add: init_file_def)
  moreover from a have "\<exists>i. check input_format = Inr i" by (auto simp: check_def)
  ultimately
  show "hdf5video_new fs (Str name) dataset input_format convert_range = Inl FileNotFoundError"
    by (auto simp: hdf5video_new_def)
next
  assume "\<not> isfile fs name"
  then show "numpyvideo_new fs (Str name) = Inl FileNotFoundError"
    by (simp add: numpyvideo_new_def np_load_not_file)
next
  assume "\<not> isfile fs name"
  then show "mediavideo_new fs (Str name) grayscale bgr = Inl FileNotFoundError"
    by (simp add: mediavideo_new_def)
qed

theorem construction_failures_witness:
  "hdf5video_new (\<lambda>p. None) (Str ''missing.h5'') DsNone ''channels_middle'' True = Inl ValueError
   \<and> hdf5video_new (\<lambda>p. None) (Str ''missing.h5'') DsNone ''channels_last'' True
       = Inl FileNotFoundError
   \<and> numpyvideo_new (\<lambda>p. None) (Str ''missing.npy'') = Inl FileNotFoundError
   \<and> mediavideo_new (\<lambda>p. if p = ''clips'' then Some Directory else None) (Str ''clips'')
         None True = Inl FileNotFoundError"
proof -
  have f1: "\<not> isfile (\<lambda>p. None) ''missing.h5''" by (simp add: isfile_def)
  have f2: "\<not> isfile (\<lambda>p. None) ''missing.npy''" by (simp add: isfile_def)
  have f3: "\<not> isfile (\<lambda>p. if p = ''clips'' then Some Directory else None) ''clips''"
    by (simp add: isfile_def)
  have n: "''channels_middle'' \<noteq> ''channels_first'' \<and> ''channels_middle'' \<noteq> ''channels_last''"
    by simp
  have c1: "hdf5video_new (\<lambda>p. None) (Str ''missing.h5'') DsNone ''channels_middle'' True
            = Inl ValueError"
    using construction_failures
            [where input_format = "''channels_middle''" and fs = "\<lambda>p. None"
               and filename = "Str ''missing.h5''" and dataset = DsNone
               and convert_range = True, THEN conjunct1]
          n by (rule mp)
  have c2: "hdf5video_new (\<lambda>p. None) (Str ''missing.h5'') DsNone ''channels_last'' True
            = Inl FileNotFoundError"
    using construction_failures
            [where input_format = "''channels_last''" and fs = "\<lambda>p. None"
               and name = "''missing.h5''" and dataset = DsNone and convert_range = True,
             THEN conjunct2, THEN conjunct1]
          f1 by simp
  have c3: "numpyvideo_new (\<lambda>p. None) (Str ''missing.npy'') = Inl FileNotFoundError"
    using construction_failures
            [where fs = "\<lambda>p. None" and name = "''missing.npy''",
             THEN conjunct2, THEN conjunct2, THEN conjunct1]
          f2 by (rule mp)
  have c4: "mediavideo_new (\<lambda>p. if p = ''clips'' then Some Directory else None) (Str ''clips'')
              None True = Inl FileNotFoundError"
    using construction_failures
            [where fs = "\<lambda>p. if p = ''clips'' then Some Directory else None"
               and name = "''clips''" and grayscale = None and bgr = True,
             THEN conjunct2, THEN conjunct2, THEN conjunct2]
          f3 by (rule mp)
  from c1 c2 c3 c4 show ?thesis by (intro conjI)
qed

section \<open>Verified properties: dispatch on the file name\<close>

lemma suffix_last: "suffix s f \<Longrightarrow> s \<noteq> [] \<Longrightarrow> last f = last s"
  by (auto simp: suffix_def)

lemma suffix_nonempty: "suffix s f \<Longrightarrow> s \<noteq> [] \<Longrightarrow> f \<noteq> []"
  by (auto simp: suffix_def)

lemma last_lower: "f \<noteq> [] \<Longrightarrow> last (lower f) = lower_char (last f)"
  by (simp add: lower_def last_map)

lemma lower_nonempty: "(lower f = []) = (f = [])"
  by (simp add: lower_def)

lemma suffix_lower: "suffix s f \<Longrightarrow> suffix (lower s) (lower f)"
  by (auto simp: suffix_def lower_def)

lemma lower_char_simps:
  "lower_char CHR ''y'' = CHR ''y''" "lower_char CHR ''5'' = CHR ''5''"
  "lower_char CHR ''4'' = CHR ''4''" "lower_char CHR ''i'' = CHR ''i''"
  by (simp_all add: lower_char_def)

lemma dotted_suffix: "suffix (c # s) f \<Longrightarrow> suffix s f"
  by (meson suffix_ConsD)

lemma npy_not_h5:
  assumes "suffix ''npy'' f"
  shows "\<not> suffix ''h5'' (lower f)" "\<not> suffix ''hdf5'' (lower f)"
proof -
  have ne: "f \<noteq> []" and l: "last f = CHR ''y''"
    using assms suffix_last[OF assms] suffix_nonempty[OF assms] by simp_all
  have ll: "last (lower f) = CHR ''y''" using last_lower[OF ne] l by (simp add: lower_char_simps)
  show "\<not> suffix ''h5'' (lower f)" using suffix_last[of "''h5''" "lower f"] ll by auto
  show "\<not> suffix ''hdf5'' (lower f)" using suffix_last[of "''hdf5''" "lower f"] ll by auto
qed

lemma media_not_others:
  assumes "suffix ''mp4'' (lower f) \<or> suffix ''avi'' (lower f)"
  shows "\<not> suffix ''h5'' (lower f)" "\<not> suffix ''hdf5'' (lower f)" "\<not> suffix ''npy'' f"
proof -
  have l: "last (lower f) = CHR ''4'' \<or> last (lower f) = CHR ''i''"
    using assms suffix_last[of "''mp4''" "lower f"] suffix_last[of "''avi''" "lower f"] by auto
  show "\<not> suffix ''h5'' (lower f)" using suffix_last[of "''h5''" "lower f"] l by auto
  show "\<not> suffix ''hdf5'' (lower f)" using suffix_last[of "''hdf5''" "lower f"] l by auto
  show "\<not> suffix ''npy'' f"
  proof
    assume n: "suffix ''npy'' f"
    have ne: "f \<noteq> []" and lf: "last f = CHR ''y''"
      using suffix_last[OF n] suffix_nonempty[OF n] by simp_all
    have "last (lower f) = CHR ''y''" using last_lower[OF ne] lf by (simp add: lower_char_simps)
    with l show False by auto
  qed
qed

lemma from_filename_repaired:
  "fixup_path fs (Str name) = Inr (Str f) \<Longrightarrow>
   from_filename fs opn cwd (Str name) =
     (if suffix ''h5'' (lower f) \<or> suffix ''hdf5'' (lower f) then
            make_video (hdf5video_new fs (Str f) DsNone ''channels_last'' True) HDF5Backend
          else if suffix ''npy'' f then
            make_video (numpyvideo_new fs (Str f)) NumpyBackend
          else if suffix ''mp4'' (lower f) \<or> suffix ''avi'' (lower f) then
            make_video (mediavideo_new fs (Str f) None True) MediaBackend
          else if isdir fs f \<or> sublist ''metadata.yaml'' f then
            make_video (imgstorevideo_new opn cwd (Str f) True) ImgStoreBackend
          else Inl ValueError)"
  unfolding from_filename_def by (simp only: sum.case pathlike.case)


lemma undot_h5:
  "suffix ''.h5'' (lower f) \<or> suffix ''.hdf5'' (lower f) \<Longrightarrow>
   suffix ''h5'' (lower f) \<or> suffix ''hdf5'' (lower f)"
  by (erule disjE) (simp_all only: dotted_suffix simp_thms)

lemma undot_media:
  "suffix ''.mp4'' (lower f) \<or> suffix ''.avi'' (lower f) \<Longrightarrow>
   suffix ''mp4'' (lower f) \<or> suffix ''avi'' (lower f)"
  by (erule disjE) (simp_all only: dotted_suffix simp_thms)

text \<open>
  Claim C4, as amended. \<open>Video.from_filename\<close> first repairs the name with
  \<open>fixup_path\<close> and raises \<open>FileNotFoundError\<close> when that finds nothing. On the repaired
  name it calls the constructor of \<open>HDF5Video\<close> for a name ending in \<open>.h5\<close> or \<open>.hdf5\<close>,
  of \<open>NumpyVideo\<close> for a name ending in \<open>.npy\<close>, of \<open>MediaVideo\<close> for a name ending in
  \<open>.mp4\<close> or \<open>.avi\<close> (letter case ignored except for \<open>.npy\<close>); for a name with none of
  the endings \<open>h5\<close>, \<open>hdf5\<close>, \<open>npy\<close>, \<open>mp4\<close>, \<open>avi\<close> it calls the constructor of
  \<open>ImgStoreVideo\<close> when the name is an existing directory or contains \<open>metadata.yaml\<close>,
  and raises \<open>ValueError\<close> otherwise.
\<close>

theorem from_filename_dispatch:
  "(\<forall>e. fixup_path fs (Str name) = Inl e \<longrightarrow>
       e = FileNotFoundError \<and> from_filename fs opn cwd (Str name) = Inl FileNotFoundError)
   \<and> (\<forall>f. fixup_path fs (Str name) = Inr (Str f) \<longrightarrow>
        (suffix ''.h5'' (lower f) \<or> suffix ''.hdf5'' (lower f) \<longrightarrow>
           from_filename fs opn cwd (Str name)
           = make_video (hdf5video_new fs (Str f) DsNone ''channels_last'' True) HDF5Backend)
      \<and> (suffix ''.npy'' f \<longrightarrow>
           from_filename fs opn cwd (Str name)
           = make_video (numpyvideo_new fs (Str f)) NumpyBackend)
      \<and> (suffix ''.mp4'' (lower f) \<or> suffix ''.avi'' (lower f) \<longrightarrow>
           from_filename fs opn cwd (Str name)
           = make_video (mediavideo_new fs (Str f) None True) MediaBackend)
      \<and> (no_known_suffix f \<and> (isdir fs f \<or> sublist ''metadata.yaml'' f) \<longrightarrow>
           from_filename fs opn cwd (Str name)
           = make_video (imgstorevideo_new opn cwd (Str f) True) ImgStoreBackend)
      \<and> (no_known_suffix f \<and> \<not> isdir fs f \<and> \<not> sublist ''metadata.yaml'' f \<longrightarrow>
           from_filename fs opn cwd (Str name) = Inl ValueError))"
proof (intro conjI allI impI)
  fix e assume e: "fixup_path fs (Str name) = Inl e"
  then show "e = FileNotFoundError"
    by (auto simp: fixup_path_def Let_def split: if_splits)
  from e this show "from_filename fs opn cwd (Str name) = Inl FileNotFoundError"
    by (simp add: from_filename_def)
next
  fix f assume f: "fixup_path fs (Str name) = Inr (Str f)"
     and s: "suffix ''.h5'' (lower f) \<or> suffix ''.hdf5'' (lower f)"
  from s have "suffix ''h5'' (lower f) \<or> suffix ''hdf5'' (lower f)"
    by (rule undot_h5)
  then show "from_filename fs opn cwd (Str name)
           = make_video (hdf5video_new fs (Str f) DsNone ''channels_last'' True) HDF5Backend"
    unfolding from_filename_repaired[OF f] by (simp only: if_True)
next
  fix f assume f: "fixup_path fs (Str name) = Inr (Str f)" and s: "suffix ''.npy'' f"
  from s have n: "suffix ''npy'' f" by (rule dotted_suffix)
  with npy_not_h5[OF n] show "from_filename fs opn cwd (Str name)
           = make_video (numpyvideo_new fs (Str f)) NumpyBackend"
    unfolding from_filename_repaired[OF f] by (simp only: if_True if_False simp_thms)
next
  fix f assume f: "fixup_path fs (Str name) = Inr (Str f)"
     and s: "suffix ''.mp4'' (lower f) \<or> suffix ''.avi'' (lower f)"
  from s have m: "suffix ''mp4'' (lower f) \<or> suffix ''avi'' (lower f)"
    by (rule undot_media)
  with media_not_others[OF m] show "from_filename fs opn cwd (Str name)
           = make_video (mediavideo_new fs (Str f) None True) MediaBackend"
    unfolding from_filename_repaired[OF f] by (simp only: if_True if_False simp_thms)
next
  fix f assume f: "fixup_path fs (Str name) = Inr (Str f)"
     and s: "no_known_suffix f \<and> (isdir fs f \<or> sublist ''metadata.yaml'' f)"
  then show "from_filename fs opn cwd (Str name)
           = make_video (imgstorevideo_new opn cwd (Str f) True) ImgStoreBackend"
    unfolding from_filename_repaired[OF f] no_known_suffix_def
    by (simp only: if_True if_False simp_thms)
next
  fix f assume f: "fixup_path fs (Str name) = Inr (Str f)"
     and s: "no_known_suffix f \<and> \<not> isdir fs f \<and> \<not> sublist ''metadata.yaml'' f"
  then show "from_filename fs opn cwd (Str name) = Inl ValueError"
    unfolding from_filename_repaired[OF f] no_known_suffix_def
    by (simp only: if_True if_False simp_thms)
qed

theorem from_filename_dispatch_witness:
  "from_filename
     (\<lambda>p. if p = ''a.npy'' then Some (NpyFile \<lparr>shape = [1, 1, 1, 1], elems = [0]\<rparr>)
          else if p = ''clips'' then Some Directory
          else if p = ''notes.txt'' then Some OtherFile else None)
     (\<lambda>p. Inr \<lparr>store_images = [(0, \<lparr>shape = [1, 1], elems = [0]\<rparr>)]\<rparr>) ''/home''
     (Str ''/x/a.npy'')
   = Inr \<lparr>backend = NumpyBackend
           \<lparr>nv_filename = Str ''a.npy'',
            nv_data = Some \<lparr>shape = [1, 1, 1, 1], elems = [0]\<rparr>,
            nv_frame_idx = 0, nv_width_idx = 1, nv_height_idx = 2, nv_channel_idx = 3\<rparr>\<rparr>
   \<and> from_filename
     (\<lambda>p. if p = ''a.npy'' then Some (NpyFile \<lparr>shape = [1, 1, 1, 1], elems = [0]\<rparr>)
          else if p = ''clips'' then Some Directory
          else if p = ''notes.txt'' then Some OtherFile else None)
     (\<lambda>p. Inr \<lparr>store_images = [(0, \<lparr>shape = [1, 1], elems = [0]\<rparr>)]\<rparr>) ''/home''
     (Str ''clips'')
   = Inr \<lparr>backend = ImgStoreBackend
           \<lparr>iv_filename = ''/home/clips/metadata.yaml'', iv_index_by_original = True,
            iv_store = Some \<lparr>store_images = [(0, \<lparr>shape = [1, 1], elems = [0]\<rparr>)]\<rparr>,
            iv_img = Some \<lparr>shape = [1, 1], elems = [0]\<rparr>\<rparr>\<rparr>
   \<and> from_filename
     (\<lambda>p. if p = ''a.npy'' then Some (NpyFile \<lparr>shape = [1, 1, 1, 1], elems = [0]\<rparr>)
          else if p = ''clips'' then Some Directory
          else if p = ''notes.txt'' then Some OtherFile else None)
     (\<lambda>p. Inr \<lparr>store_images = [(0, \<lparr>shape = [1, 1], elems = [0]\<rparr>)]\<rparr>) ''/home''
     (Str ''notes.txt'')
   = Inl ValueError"
proof -
  let ?fs = "\<lambda>p. if p = ''a.npy'' then Some (NpyFile \<lparr>shape = [1, 1, 1, 1], elems = [0]\<rparr>)
          else if p = ''clips'' then Some Directory
          else if p = ''notes.txt'' then Some OtherFile else None"
  let ?opn = "\<lambda>p :: string. Inr \<lparr>store_images = [(0::int, \<lparr>shape = [1, 1], elems = [0::rat]\<rparr>)]\<rparr> :: error + store"
  have r1: "fixup_path ?fs (Str ''/x/a.npy'') = Inr (Str ''a.npy'')" by code_simp
  have r2: "fixup_path ?fs (Str ''clips'') = Inr (Str ''clips'')" by code_simp
  have r3: "fixup_path ?fs (Str ''notes.txt'') = Inr (Str ''notes.txt'')" by code_simp
  have s1: "suffix ''.npy'' ''a.npy''" by code_simp
  have s2: "no_known_suffix ''clips'' \<and> (isdir ?fs ''clips'' \<or> sublist ''metadata.yaml'' ''clips'')"
    by code_simp
  have s3: "no_known_suffix ''notes.txt'' \<and> \<not> isdir ?fs ''notes.txt''
              \<and> \<not> sublist ''metadata.yaml'' ''notes.txt''"
    by code_simp
  have d1: "from_filename ?fs ?opn ''/home'' (Str ''/x/a.npy'')
            = make_video (numpyvideo_new ?fs (Str ''a.npy'')) NumpyBackend"
    using from_filename_dispatch[of ?fs "''/x/a.npy''" ?opn "''/home''"] r1 s1 by blast
  have d2: "from_filename ?fs ?opn ''/home'' (Str ''clips'')
            = make_video (imgstorevideo_new ?opn ''/home'' (Str ''clips'') True) ImgStoreBackend"
    using from_filename_dispatch[of ?fs "''clips''" ?opn "''/home''"] r2 s2 by blast
  have d3: "from_filename ?fs ?opn ''/home'' (Str ''notes.txt'') = Inl ValueError"
    using from_filename_dispatch[of ?fs "''notes.txt''" ?opn "''/home''"] r3 s3 by blast
  have v1: "make_video (numpyvideo_new ?fs (Str ''a.npy'')) NumpyBackend
     = Inr \<lparr>backend = NumpyBackend
           \<lparr>nv_filename = Str ''a.npy'',
            nv_data = Some \<lparr>shape = [1, 1, 1, 1], elems = [0]\<rparr>,
            nv_frame_idx = 0, nv_width_idx = 1, nv_height_idx = 2, nv_channel_idx = 3\<rparr>\<rparr>"
    by code_simp
  have v2: "make_video (imgstorevideo_new ?opn ''/home'' (Str ''clips'') True) ImgStoreBackend
     = Inr \<lparr>backend = ImgStoreBackend
           \<lparr>iv_filename = ''/home/clips/metadata.yaml'', iv_index_by_original = True,
            iv_store = Some \<lparr>store_images = [(0, \<lparr>shape = [1, 1], elems = [0]\<rparr>)]\<rparr>,
            iv_img = Some \<lparr>shape = [1, 1], elems = [0]\<rparr>\<rparr>\<rparr>"
    by code_simp
  show ?thesis unfolding d1 d2 d3 v1 v2 by simp
qed

text \<open>
  The claim as first stated fails: a name of no known kind that does not exist raises
  \<open>FileNotFoundError\<close>, not \<open>ValueError\<close>; and an existing directory whose name ends in
  \<open>mp4\<close> goes to \<open>MediaVideo\<close> (which finds no file), although \<open>ImgStoreVideo\<close> would
  have opened it.
\<close>

theorem from_filename_other_name_missing:
  "from_filename (\<lambda>p. None) (\<lambda>p. Inl LibraryError) ''/home'' (Str ''notes.txt'')
     = Inl FileNotFoundError
   \<and> from_filename (\<lambda>p. if p = ''clips_mp4'' then Some Directory else None)
        (\<lambda>p. Inr \<lparr>store_images = [(0, \<lparr>shape = [1, 1], elems = [0]\<rparr>)]\<rparr>) ''/home''
        (Str ''clips_mp4'')
     = Inl FileNotFoundError
   \<and> imgstorevideo_new
        (\<lambda>p. Inr \<lparr>store_images = [(0, \<lparr>shape = [1, 1], elems = [0]\<rparr>)]\<rparr>) ''/home''
        (Str ''clips_mp4'') True
     = Inr \<lparr>iv_filename = ''/home/clips_mp4/metadata.yaml'', iv_index_by_original = True,
            iv_store = Some \<lparr>store_images = [(0, \<lparr>shape = [1, 1], elems = [0]\<rparr>)]\<rparr>,
            iv_img = Some \<lparr>shape = [1, 1], elems = [0]\<rparr>\<rparr>"
  by code_simp

section \<open>Verified properties: pixel values of the frames\<close>

lemma fold_max_le:
  fixes x :: "'a::linorder"
  shows "(fold max xs x \<le> b) = (\<forall>y\<in>set (x # xs). y \<le> b)"
  by (induction xs arbitrary: x) auto

lemma np_max_le_one:
  assumes "elems a \<noteq> []" "\<forall>x\<in>set (elems a). x \<le> (1::rat)"
  shows "\<exists>m. np_max a = Inr m \<and> m \<le> 1"
proof -
  obtain x xs where e: "elems a = x # xs" using assms(1) by (cases "elems a") auto
  have "fold max xs x \<le> 1" using assms(2) e by (simp add: fold_max_le)
  then show ?thesis using e by (simp add: np_max_def)
qed

lemma getitem0_subset:
  "getitem0 d idx = Inr fr \<Longrightarrow> set (elems fr) \<subseteq> set (elems d)"
  by (auto simp: getitem0_def split: list.splits sum.splits dest!: in_set_takeD in_set_dropD)

lemma prod_list_butlast:
  "s \<noteq> [] \<Longrightarrow> prod_list s = prod_list (butlast s) * last (s :: nat list)"
  by (induction s) auto

lemma take_last_axis_props:
  assumes "wf_array a" "take_last_axis a b = Inr g"
  shows "set (elems g) \<subseteq> set (elems a) \<and> wf_array g \<and> shape g = butlast (shape a)"
proof -
  from assms(2) have ne: "shape a \<noteq> []" and c: "last (shape a) \<noteq> 0"
    and g: "g = \<lparr>shape = butlast (shape a),
                 elems = map (\<lambda>i. elems a ! (i * last (shape a) + (if b then last (shape a) - 1 else 0)))
                          [0..<prod_list (butlast (shape a))]\<rparr>"
    by (auto simp: take_last_axis_def Let_def split: list.splits if_splits)
  have len: "length (elems a) = prod_list (butlast (shape a)) * last (shape a)"
    using assms(1) prod_list_butlast[OF ne] by (simp add: wf_array_def)
  have "i * last (shape a) + (if b then last (shape a) - 1 else 0) < length (elems a)"
    if "i < prod_list (butlast (shape a))" for i
  proof -
    have "i * last (shape a) + (if b then last (shape a) - 1 else 0) < (i + 1) * last (shape a)"
      using c by auto
    also have "\<dots> \<le> prod_list (butlast (shape a)) * last (shape a)"
      using that by (intro mult_le_mono1) simp
    finally show ?thesis using len by simp
  qed
  then have "set (elems g) \<subseteq> set (elems a)" unfolding g by auto
  moreover have "wf_array g" unfolding g by (simp add: wf_array_def)
  ultimately show ?thesis unfolding g by simp
qed

lemma reverse_last_axis_props:
  assumes "wf_array a" "reverse_last_axis a = Inr g"
  shows "set (elems g) \<subseteq> set (elems a) \<and> shape g = shape a"
proof -
  from assms(2) have ne: "shape a \<noteq> []"
    and g: "g = a\<lparr>elems := map (\<lambda>i. elems a ! ((i div last (shape a)) * last (shape a)
                                   + (last (shape a) - 1 - i mod last (shape a))))
                          [0..<length (elems a)]\<rparr>"
    by (auto simp: reverse_last_axis_def Let_def split: list.splits)
  let ?c = "last (shape a)"
  have len: "length (elems a) = prod_list (butlast (shape a)) * ?c"
    using assms(1) prod_list_butlast[OF ne] by (simp add: wf_array_def)
  have "(i div ?c) * ?c + (?c - 1 - i mod ?c) < length (elems a)" if i: "i < length (elems a)" for i
  proof -
    have c: "0 < ?c" using i len by (cases "?c = 0") auto
    have d: "i div ?c < prod_list (butlast (shape a))"
      using i len c by (simp add: less_mult_imp_div_less)
    have "(i div ?c) * ?c + (?c - 1 - i mod ?c) < (i div ?c + 1) * ?c" using c by auto
    also have "\<dots> \<le> prod_list (butlast (shape a)) * ?c"
      using d by (intro mult_le_mono1) simp
    finally show ?thesis using len by simp
  qed
  then have "set (elems g) \<subseteq> set (elems a)" unfolding g by auto
  then show ?thesis unfolding g by simp
qed

lemma wf_add_last_axis: "wf_array g \<Longrightarrow> wf_array (add_last_axis g)"
  by (simp add: wf_array_def add_last_axis_def)

lemma reader_read_Some:
  "reader_read r = (Some raw, r') \<Longrightarrow> raw \<in> set (rd_frames r)"
  by (auto simp: reader_read_def split: if_splits)

lemma reader_read_at:
  "reader_read r = (Some raw, r') \<Longrightarrow>
   0 \<le> rd_pos r \<and> nat (rd_pos r) < length (rd_frames r) \<and> raw = rd_frames r ! nat (rd_pos r)"
  by (auto simp: reader_read_def split: if_splits)

lemma media_get_frame_values:
  assumes run: "media_get_frame mv idx g = (Inr (Some fr), mv')"
      and wf: "\<forall>raw\<in>set (rd_frames (mv_reader mv)). wf_array raw"
  shows "nat (max 0 idx) < length (rd_frames (mv_reader mv))
         \<and> set (elems fr) \<subseteq> set (elems (rd_frames (mv_reader mv) ! nat (max 0 idx)))"
proof -
  let ?gray = "case g of None \<Rightarrow> mv_grayscale mv | Some b \<Rightarrow> b"
  let ?r0 = "if rd_pos (mv_reader mv) \<noteq> idx then (mv_reader mv)\<lparr>rd_pos := max 0 idx\<rparr>
             else mv_reader mv"
  obtain frame0 r1 where rd: "reader_read ?r0 = (frame0, r1)" by (cases "reader_read ?r0")
  let ?frame1 = "if ?gray then
               (case frame0 of
                  None \<Rightarrow> Inl TypeError
                | Some f \<Rightarrow>
                    (case take_last_axis f False of
                       Inl e \<Rightarrow> Inl e
                     | Inr g \<Rightarrow> Inr (Some (add_last_axis g))))
             else Inr frame0"
  have res: "(case ?frame1 of
               Inl e \<Rightarrow> Inl e
             | Inr fr \<Rightarrow>
                 if mv_bgr mv then
                   (case fr of
                      None \<Rightarrow> Inl TypeError
                    | Some f \<Rightarrow>
                        (case reverse_last_axis f of
                           Inl e \<Rightarrow> Inl e
                         | Inr g \<Rightarrow> Inr (Some g)))
                 else Inr fr) = Inr (Some fr)"
    using run rd by (simp add: media_get_frame_def Let_def)
  have frames: "rd_frames ?r0 = rd_frames (mv_reader mv)" by simp
  obtain mid where mid: "?frame1 = Inr (Some mid)"
    and fin: "(if mv_bgr mv then reverse_last_axis mid else Inr mid) = Inr fr"
    using res by (auto split: sum.splits option.splits if_splits)
  obtain raw where raw: "frame0 = Some raw"
    and m: "(if ?gray then (case take_last_axis raw False of
                       Inl e \<Rightarrow> Inl e
                     | Inr g \<Rightarrow> Inr (add_last_axis g)) else Inr raw) = Inr mid"
    using mid by (auto split: sum.splits option.splits if_splits)
  have rin: "raw \<in> set (rd_frames (mv_reader mv))"
    using reader_read_Some[of ?r0 raw r1] rd raw frames by simp
  have at: "0 \<le> rd_pos ?r0 \<and> nat (rd_pos ?r0) < length (rd_frames ?r0)
            \<and> raw = rd_frames ?r0 ! nat (rd_pos ?r0)"
    using reader_read_at[of ?r0 raw r1] rd raw by simp
  have pos: "rd_pos ?r0 = max 0 idx"
  proof (cases "rd_pos (mv_reader mv) \<noteq> idx")
    case True
    then show ?thesis by simp
  next
    case False
    then have "rd_pos ?r0 = idx" by simp
    moreover from this at have "0 \<le> idx" by simp
    ultimately show ?thesis by simp
  qed
  have src: "nat (max 0 idx) < length (rd_frames (mv_reader mv))
             \<and> raw = rd_frames (mv_reader mv) ! nat (max 0 idx)"
    using at frames unfolding pos by simp
  from rin have wraw: "wf_array raw" using wf by blast
  have midp: "set (elems mid) \<subseteq> set (elems raw) \<and> wf_array mid"
  proof (cases ?gray)
    case True
    then obtain g' where g': "take_last_axis raw False = Inr g'" and me: "mid = add_last_axis g'"
      using m by (auto split: sum.splits)
    from take_last_axis_props[OF wraw g'] show ?thesis
      unfolding me by (simp add: wf_add_last_axis) (simp add: add_last_axis_def)
  next
    case False
    then have "mid = raw" using m by simp
    then show ?thesis using wraw by simp
  qed
  have "set (elems fr) \<subseteq> set (elems mid)"
  proof (cases "mv_bgr mv")
    case True
    then have "reverse_last_axis mid = Inr fr" using fin by simp
    from reverse_last_axis_props[OF _ this] midp show ?thesis by simp
  next
    case False
    then show ?thesis using fin by simp
  qed
  with midp have "set (elems fr) \<subseteq> set (elems raw)" by blast
  with src show ?thesis by simp
qed

lemma imgstore_get_frame_values:
  assumes "imgstore_get_frame opn iv n = (Inr fr, iv')"
  shows "\<exists>st img. iv_store iv' = Some st \<and> img \<in> snd ` set (store_images st)
                  \<and> elems fr = elems img"
proof -
  from assms obtain st img where o: "imgstore_open opn iv = Inr iv'" and st: "iv_store iv' = Some st"
    and img: "(if iv_index_by_original iv' then get_image_by_number st n
               else get_image_by_index st n) = Inr img"
    and fr: "fr = (if length (shape img) = 2 then add_last_axis img else img)"
    by (auto simp: imgstore_get_frame_def split: sum.splits option.splits)
  have "img \<in> snd ` set (store_images st)"
  proof (cases "iv_index_by_original iv'")
    case True
    then have "map_of (store_images st) n = Some img"
      using img by (auto simp: get_image_by_number_def split: option.splits)
    then have "(n, img) \<in> set (store_images st)" by (rule map_of_SomeD)
    then show ?thesis by force
  next
    case False
    then show ?thesis using img
      by (auto simp: get_image_by_index_def split: if_splits)
  qed
  moreover have "elems fr = elems img" using fr by (simp add: add_last_axis_def)
  ultimately show ?thesis using st by blast
qed

lemma hdf5_get_frame_scaled:
  assumes "hv_dataset_h5 v = Some d" "getitem0 d idx = Inr frame0"
      and "(if hv_input_format v = ''channels_first'' then transpose_210 frame0 else Inr frame0)
           = Inr frame"
      and "hv_convert_range v" "elems frame \<noteq> []" "\<forall>x\<in>set (elems frame). x \<le> 1"
  shows "hdf5_get_frame times_255 v idx = Inr (scale_255 times_255 frame)"
proof -
  obtain m where "np_max frame = Inr m" "m \<le> 1"
    using np_max_le_one[OF assms(5,6)] by blast
  then show ?thesis using assms(1-4) by (simp add: hdf5_get_frame_def)
qed

lemma numpy_get_frame_values:
  assumes "numpy_get_frame nv idx = Inr fr"
  shows "\<exists>d. nv_data nv = Some d \<and> getitem0 d idx = Inr fr \<and> set (elems fr) \<subseteq> set (elems d)"
  using assms getitem0_subset
  by (auto simp: numpy_get_frame_def split: option.splits)

text \<open>
  Claim C2, as amended. Only the HDF5 backend converts the range of pixel values:
  \<open>HDF5Video.get_frame(idx)\<close>, when \<open>convert_range\<close> is true and the fetched frame has
  at least one value and every value is at most 1, returns the frame with every value
  multiplied by 255 and cast to int, in the arithmetic of the dataset's dtype (for
  doubles: the product rounded to the nearest double, then truncated). The frames of
  \<open>NumpyVideo.get_frame\<close>, \<open>MediaVideo.get_frame\<close> and \<open>ImgStoreVideo.get_frame\<close> hold no
  value that the stored frame does not hold: the numpy backend returns the slice of
  its array, the media backend selects and reorders channels of the frame it read
  (frame \<open>idx\<close>, frame 0 for a negative \<open>idx\<close>), the image store backend returns the
  stored image with at most a new axis.
\<close>

theorem range_conversion_hdf5_only:
  "(hv_dataset_h5 v = Some d \<and> getitem0 d idx = Inr frame0
      \<and> (if hv_input_format v = ''channels_first'' then transpose_210 frame0 else Inr frame0)
          = Inr frame
      \<and> hv_convert_range v \<and> elems frame \<noteq> [] \<and> (\<forall>x\<in>set (elems frame). x \<le> 1)
    \<longrightarrow> hdf5_get_frame times_255 v idx
          = Inr (frame\<lparr>elems := map (\<lambda>x. of_int (times_255 x)) (elems frame)\<rparr>)
      \<and> hdf5_get_frame float64_times_255 v idx
          = Inr (frame\<lparr>elems := map (\<lambda>x. of_int (trunc (round_float64 (x * 255))))
                                  (elems frame)\<rparr>))
   \<and> (numpy_get_frame nv idx = Inr fr \<longrightarrow>
        (\<exists>d. nv_data nv = Some d \<and> getitem0 d idx = Inr fr
             \<and> set (elems fr) \<subseteq> set (elems d)))
   \<and> (media_get_frame mv idx g = (Inr (Some fr), mv')
        \<and> (\<forall>raw\<in>set (rd_frames (mv_reader mv)). wf_array raw) \<longrightarrow>
        nat (max 0 idx) < length (rd_frames (mv_reader mv))
        \<and> set (elems fr) \<subseteq> set (elems (rd_frames (mv_reader mv) ! nat (max 0 idx))))
   \<and> (imgstore_get_frame opn iv n = (Inr fr, iv') \<longrightarrow>
        (\<exists>st img. iv_store iv' = Some st \<and> img \<in> snd ` set (store_images st)
                  \<and> elems fr = elems img))"
proof -
  have f64: "scale_255 float64_times_255 frame
             = frame\<lparr>elems := map (\<lambda>x. of_int (trunc (round_float64 (x * 255))))
                                  (elems frame)\<rparr>"
    by (simp add: scale_255_def float64_times_255_def)
  have gen: "scale_255 times_255 frame
             = frame\<lparr>elems := map (\<lambda>x. of_int (times_255 x)) (elems frame)\<rparr>"
    by (simp add: scale_255_def)
  show ?thesis
    using hdf5_get_frame_scaled[of v d idx frame0 frame times_255]
          hdf5_get_frame_scaled[of v d idx frame0 frame float64_times_255]
          numpy_get_frame_values[of nv idx fr]
          media_get_frame_values[of mv idx g fr mv']
          imgstore_get_frame_values[of opn iv n fr iv']
    unfolding f64 gen
    by blast
qed

theorem range_conversion_hdf5_only_witness:
  "hdf5_get_frame float64_times_255
     \<lparr>hv_filename = Str ''v.h5'', hv_dataset = Some ''box'',
      hv_input_format = ''channels_last'', hv_convert_range = True,
      hv_file_h5 = None,
      hv_dataset_h5 =
        Some \<lparr>shape = [1, 1, 3, 1],
              elems = [1 / 2, 1, 282578800148737 / 72057594037927936]\<rparr>,
      hv_channel_idx = 3, hv_width_idx = 2, hv_height_idx = 1\<rparr> 0
   = Inr \<lparr>shape = [1, 3, 1], elems = [127, 255, 1]\<rparr>
   \<and> (\<exists>d. nv_data \<lparr>nv_filename = Str ''Raw Video Data'',
                      nv_data = Some \<lparr>shape = [1, 1, 2, 1], elems = [1 / 2, 1]\<rparr>,
                      nv_frame_idx = 0, nv_width_idx = 1, nv_height_idx = 2,
                      nv_channel_idx = 3\<rparr> = Some d
          \<and> getitem0 d 0 = Inr \<lparr>shape = [1, 2, 1], elems = [1 / 2, 1]\<rparr>)
   \<and> media_get_frame
        \<lparr>mv_filename = ''v.mp4'', mv_grayscale = False, mv_bgr = True,
         mv_detect_grayscale = True,
         mv_reader = \<lparr>rd_frames = [\<lparr>shape = [1, 2, 3], elems = [1, 2, 3, 4, 5, 6]\<rparr>],
                      rd_pos = 1\<rparr>,
         mv_test_frame = Some \<lparr>shape = [1, 2, 3], elems = [3, 2, 1, 6, 5, 4]\<rparr>\<rparr> (- 1) None
      = (Inr (Some \<lparr>shape = [1, 2, 3], elems = [3, 2, 1, 6, 5, 4]\<rparr>),
         \<lparr>mv_filename = ''v.mp4'', mv_grayscale = False, mv_bgr = True,
          mv_detect_grayscale = True,
          mv_reader = \<lparr>rd_frames = [\<lparr>shape = [1, 2, 3], elems = [1, 2, 3, 4, 5, 6]\<rparr>],
                       rd_pos = 1\<rparr>,
          mv_test_frame = Some \<lparr>shape = [1, 2, 3], elems = [3, 2, 1, 6, 5, 4]\<rparr>\<rparr>)
   \<and> set (elems \<lparr>shape = [1, 2, 3], elems = [3, 2, 1, 6, 5, 4 :: rat]\<rparr>)
       \<subseteq> set (elems ([\<lparr>shape = [1, 2, 3], elems = [1, 2, 3, 4, 5, 6 :: rat]\<rparr>] ! 0))
   \<and> (\<exists>img. img \<in> snd ` set [(7 :: int, \<lparr>shape = [1, 2], elems = [1 / 2, 1 :: rat]\<rparr>)]
          \<and> elems \<lparr>shape = [1, 2, 1], elems = [1 / 2, 1 :: rat]\<rparr> = elems img)"
proof -
  let ?d3 = "\<lparr>shape = [1, 1, 3, 1],
               elems = [1 / 2, 1, 282578800148737 / 72057594037927936 :: rat]\<rparr>"
  let ?f3 = "\<lparr>shape = [1, 3, 1],
               elems = [1 / 2, 1, 282578800148737 / 72057594037927936 :: rat]\<rparr>"
  let ?hv = "\<lparr>hv_filename = Str ''v.h5'', hv_dataset = Some ''box'',
      hv_input_format = ''channels_last'', hv_convert_range = True,
      hv_file_h5 = None, hv_dataset_h5 = Some ?d3,
      hv_channel_idx = 3, hv_width_idx = 2, hv_height_idx = 1\<rparr>"
  let ?d = "\<lparr>shape = [1, 1, 2, 1], elems = [1 / 2, 1 :: rat]\<rparr>"
  let ?frame = "\<lparr>shape = [1, 2, 1], elems = [1 / 2, 1 :: rat]\<rparr>"
  let ?nv = "\<lparr>nv_filename = Str ''Raw Video Data'', nv_data = Some ?d,
              nv_frame_idx = 0, nv_width_idx = 1, nv_height_idx = 2, nv_channel_idx = 3\<rparr>"
  let ?raw = "\<lparr>shape = [1, 2, 3], elems = [1, 2, 3, 4, 5, 6 :: rat]\<rparr>"
  let ?bgr = "\<lparr>shape = [1, 2, 3], elems = [3, 2, 1, 6, 5, 4 :: rat]\<rparr>"
  let ?mv = "\<lparr>mv_filename = ''v.mp4'', mv_grayscale = False, mv_bgr = True,
              mv_detect_grayscale = True,
              mv_reader = \<lparr>rd_frames = [?raw], rd_pos = 1\<rparr>,
              mv_test_frame = Some ?bgr\<rparr>"
  let ?st = "\<lparr>store_images = [(7 :: int, \<lparr>shape = [1, 2], elems = [1 / 2, 1 :: rat]\<rparr>)]\<rparr>"
  let ?iv = "\<lparr>iv_filename = ''/data/store/metadata.yaml'', iv_index_by_original = True,
              iv_store = Some ?st, iv_img = Some \<lparr>shape = [1, 2], elems = [1 / 2, 1 :: rat]\<rparr>\<rparr>"
  let ?opn = "\<lambda>p :: string. Inl LibraryError :: error + store"
  note T = range_conversion_hdf5_only
             [where v = ?hv and d = ?d3 and ?frame0.0 = ?f3 and frame = ?f3
                and ?times_255.0 = float64_times_255
                and nv = ?nv and mv = ?mv and g = None and mv' = ?mv
                and opn = ?opn and iv = ?iv and n = 7 and iv' = ?iv]
  have g0: "getitem0 ?d3 0 = Inr ?f3" by code_simp
  have sc: "map (\<lambda>x. of_int (float64_times_255 x))
              [1 / 2, 1, 282578800148737 / 72057594037927936] = [127, 255, 1 :: rat]"
    by code_simp
  have le: "\<forall>x\<in>set (elems ?f3). x \<le> 1" by simp
  have "hdf5_get_frame float64_times_255 ?hv 0
        = Inr (?f3\<lparr>elems := map (\<lambda>x. of_int (float64_times_255 x)) (elems ?f3)\<rparr>)"
    using T[where idx = 0 and fr = ?frame, THEN conjunct1] g0 le by simp
  then have h: "hdf5_get_frame float64_times_255 ?hv 0
                = Inr \<lparr>shape = [1, 3, 1], elems = [127, 255, 1]\<rparr>"
    using sc by simp
  have ng: "numpy_get_frame ?nv 0 = Inr ?frame" by code_simp
  have n: "\<exists>d. nv_data ?nv = Some d \<and> getitem0 d 0 = Inr ?frame"
    using T[where idx = 0 and fr = ?frame, THEN conjunct2, THEN conjunct1] ng by blast
  have mg: "media_get_frame ?mv (- 1) None = (Inr (Some ?bgr), ?mv)" by code_simp
  have wf: "\<forall>raw\<in>set (rd_frames (mv_reader ?mv)). wf_array raw" by (simp add: wf_array_def)
  have m: "set (elems ?bgr) \<subseteq> set (elems ([?raw] ! 0))"
    using T[where idx = "- 1" and fr = ?bgr, THEN conjunct2, THEN conjunct2, THEN conjunct1]
          mg wf by simp
  have ig: "imgstore_get_frame ?opn ?iv 7 = (Inr ?frame, ?iv)" by code_simp
  have i: "\<exists>img. img \<in> snd ` set [(7 :: int, \<lparr>shape = [1, 2], elems = [1 / 2, 1 :: rat]\<rparr>)]
          \<and> elems ?frame = elems img"
    using T[where idx = 0 and fr = ?frame, THEN conjunct2, THEN conjunct2, THEN conjunct2]
          ig by simp
  from h n mg m i show ?thesis by (intro conjI)
qed

text \<open>
  The claim as first stated fails on a frame without values (a dataset with an empty
  height or width): every value of it is at most 1, and \<open>np.max\<close> raises \<open>ValueError\<close>.
\<close>

theorem hdf5_get_frame_empty_frame:
  "hdf5video_new
     (\<lambda>p. if p = ''v.h5''
          then Some (Hdf5File [(''box'', \<lparr>shape = [1, 0, 0, 1], elems = []\<rparr>)]) else None)
     (Str ''v.h5'') (DsName ''box'') ''channels_last'' True
   = Inr \<lparr>hv_filename = Str ''v.h5'', hv_dataset = Some ''box'',
          hv_input_format = ''channels_last'', hv_convert_range = True,
          hv_file_h5 = Some \<lparr>h5_filename = ''v.h5'',
                              h5_datasets = [(''box'', \<lparr>shape = [1, 0, 0, 1], elems = []\<rparr>)]\<rparr>,
          hv_dataset_h5 = Some \<lparr>shape = [1, 0, 0, 1], elems = []\<rparr>,
          hv_channel_idx = 3, hv_width_idx = 2, hv_height_idx = 1\<rparr>
   \<and> hdf5_get_frame float64_times_255
         \<lparr>hv_filename = Str ''v.h5'', hv_dataset = Some ''box'',
          hv_input_format = ''channels_last'', hv_convert_range = True,
          hv_file_h5 = Some \<lparr>h5_filename = ''v.h5'',
                              h5_datasets = [(''box'', \<lparr>shape = [1, 0, 0, 1], elems = []\<rparr>)]\<rparr>,
          hv_dataset_h5 = Some \<lparr>shape = [1, 0, 0, 1], elems = []\<rparr>,
          hv_channel_idx = 3, hv_width_idx = 2, hv_height_idx = 1\<rparr> 0
       = Inl ValueError"
  by code_simp

section \<open>Verified properties: shapes of the frames\<close>

text \<open>
  The HDF5, media and image store backends report a height, a width and a channel
  count that are the shape of the frames they return, and \<open>Video.shape\<close> is the frame
  count followed by them (lemmas \<open>hdf5_frame_shape\<close>, \<open>media_frame_shape\<close> and
  \<open>imgstore_frame_shape\<close>).
\<close>

lemma getitem0_shape: "getitem0 d idx = Inr fr \<Longrightarrow> shape fr = tl (shape d)"
  by (auto simp: getitem0_def split: list.splits sum.splits)

lemma transpose_210_shape:
  "transpose_210 a = Inr b \<Longrightarrow>
   length (shape a) = 3 \<and> shape b = [shape a ! 2, shape a ! 1, shape a ! 0]"
  by (auto simp: transpose_210_def split: list.splits)

lemma scale_255_shape: "shape (scale_255 times_255 a) = shape a"
  by (simp add: scale_255_def)

lemma hdf5video_new_fields:
  assumes "hdf5video_new fs fn ds fmt cr = Inr v"
  shows "hv_input_format v = fmt
       \<and> check fmt = Inr (hv_channel_idx v, hv_width_idx v, hv_height_idx v)"
proof -
  from assms obtain c w h where c: "check fmt = Inr (c, w, h)"
    by (cases "check fmt") (auto simp: hdf5video_new_def)
  from assms c obtain f fn' where f: "init_file fs fn = Inr (f, fn')"
    by (cases "init_file fs fn") (auto simp: hdf5video_new_def)
  from assms c f obtain d f' ds' where d: "init_dataset f ds = Inr (d, f', ds')"
    by (cases "init_dataset f ds") (auto simp: hdf5video_new_def)
  from assms c f d show ?thesis by (auto simp: hdf5video_new_def)
qed

lemma check_cases:
  "check fmt = Inr (c, w, h) \<Longrightarrow>
   fmt = ''channels_first'' \<and> c = 1 \<and> w = 2 \<and> h = 3
   \<or> fmt = ''channels_last'' \<and> c = 3 \<and> w = 2 \<and> h = 1"
  by (auto simp: check_def split: if_splits)

lemma transpose_210_shape3:
  "shape a = [x, y, z] \<Longrightarrow> transpose_210 a = Inr b \<Longrightarrow> shape b = [z, y, x]"
  by (auto simp: transpose_210_def)

lemma hdf5_get_frame_shape:
  assumes "hdf5_get_frame times_255 v idx = Inr fr" "hv_dataset_h5 v = Some d"
      and "shape d = [s0, s1, s2, s3]"
  shows "shape fr = (if hv_input_format v = ''channels_first'' then [s3, s2, s1]
                     else [s1, s2, s3])"
proof -
  from assms(1,2) obtain frame0 where f0: "getitem0 d idx = Inr frame0"
    by (cases "getitem0 d idx") (auto simp: hdf5_get_frame_def)
  let ?t = "if hv_input_format v = ''channels_first'' then transpose_210 frame0 else Inr frame0"
  from assms(1,2) f0 obtain frame where f: "?t = Inr frame"
    by (cases ?t) (auto simp: hdf5_get_frame_def)
  have r: "shape fr = shape frame"
    using assms(1,2) f0 f
    by (auto simp: hdf5_get_frame_def scale_255_shape split: sum.splits if_splits)
  have s0: "shape frame0 = [s1, s2, s3]" using getitem0_shape[OF f0] assms(3) by simp
  show ?thesis
  proof (cases "hv_input_format v = ''channels_first''")
    case True
    then have "transpose_210 frame0 = Inr frame" using f by simp
    from transpose_210_shape3[OF s0 this] r True show ?thesis by simp
  next
    case False
    then have "frame = frame0" using f by simp
    with s0 r False show ?thesis by simp
  qed
qed

lemma list4:
  assumes "length (xs :: 'a list) = 4"
  shows "\<exists>a b c d. xs = [a, b, c, d]"
proof -
  from assms obtain a r1 where 1: "xs = a # r1" "length r1 = 3" by (cases xs) auto
  then obtain b r2 where 2: "r1 = b # r2" "length r2 = 2" by (cases r1) auto
  then obtain c r3 where 3: "r2 = c # r3" "length r3 = 1" by (cases r2) auto
  then obtain d where "r3 = [d]" by (cases r3) auto
  with 1 2 3 show ?thesis by simp
qed

lemma hdf5_frame_shape:
  assumes new: "hdf5video_new fs fn ds fmt cr = Inr v"
      and d: "hv_dataset_h5 v = Some d" "length (shape d) = 4"
      and fr: "hdf5_get_frame times_255 v idx = Inr fr"
  shows "\<exists>f h w c. hdf5_frames v = Inr f \<and> hdf5_height v = Inr h \<and> hdf5_width v = Inr w
           \<and> hdf5_channels v = Inr c \<and> shape fr = [h, w, c]
           \<and> video_shape \<lparr>backend = HDF5Backend v\<rparr> = Inr [f, h, w, c]"
proof -
  obtain s0 s1 s2 s3 where s: "shape d = [s0, s1, s2, s3]"
    using list4[OF d(2)] by blast
  have sh: "shape fr = (if hv_input_format v = ''channels_first'' then [s3, s2, s1] else [s1, s2, s3])"
    by (rule hdf5_get_frame_shape[OF fr d(1) s])
  from hdf5video_new_fields[OF new]
  have fmt: "hv_input_format v = fmt"
    and ck: "check fmt = Inr (hv_channel_idx v, hv_width_idx v, hv_height_idx v)" by simp_all
  have fs: "hdf5_frames v = Inr s0" using d(1) s by (simp add: hdf5_frames_def shape_at_def)
  have vs: "video_shape \<lparr>backend = HDF5Backend v\<rparr> = Inr [f, h, w, c]"
    if "hdf5_frames v = Inr f" "hdf5_height v = Inr h" "hdf5_width v = Inr w" "hdf5_channels v = Inr c"
    for f h w c
    using that by (simp add: video_shape_def video_frames_def video_height_def video_width_def
          video_channels_def)
  from check_cases[OF ck] show ?thesis
  proof
    assume a: "fmt = ''channels_first'' \<and> hv_channel_idx v = 1 \<and> hv_width_idx v = 2 \<and> hv_height_idx v = 3"
    have h: "hdf5_height v = Inr s3" and w: "hdf5_width v = Inr s2" and c: "hdf5_channels v = Inr s1"
      using a d(1) s by (simp_all add: hdf5_height_def hdf5_width_def hdf5_channels_def shape_at_def)
    have "shape fr = [s3, s2, s1]" using sh fmt a by simp
    with fs h w c vs[OF fs h w c] show ?thesis by blast
  next
    assume a: "fmt = ''channels_last'' \<and> hv_channel_idx v = 3 \<and> hv_width_idx v = 2 \<and> hv_height_idx v = 1"
    have h: "hdf5_height v = Inr s1" and w: "hdf5_width v = Inr s2" and c: "hdf5_channels v = Inr s3"
      using a d(1) s by (simp_all add: hdf5_height_def hdf5_width_def hdf5_channels_def shape_at_def)
    have "shape fr = [s1, s2, s3]" using sh fmt a by simp
    with fs h w c vs[OF fs h w c] show ?thesis by blast
  qed
qed

lemma list3:
  assumes "length (xs :: 'a list) = 3"
  shows "\<exists>a b c. xs = [a, b, c]"
proof -
  from assms obtain a r1 where 1: "xs = a # r1" "length r1 = 2" by (cases xs) auto
  then obtain b r2 where 2: "r1 = b # r2" "length r2 = 1" by (cases r1) auto
  then obtain c where "r2 = [c]" by (cases r2) auto
  with 1 2 show ?thesis by simp
qed

lemma take_last_axis_shape: "take_last_axis a b = Inr g \<Longrightarrow> shape g = butlast (shape a)"
  by (auto simp: take_last_axis_def Let_def split: list.splits if_splits)

lemma reverse_last_axis_shape: "reverse_last_axis a = Inr g \<Longrightarrow> shape g = shape a"
  by (auto simp: reverse_last_axis_def Let_def split: list.splits)

lemma media_get_frame_shape:
  assumes run: "media_get_frame mv idx g = (Inr (Some fr), mv')"
      and uni: "\<forall>raw\<in>set (rd_frames (mv_reader mv)). shape raw = [h, w, c]"
  shows "shape fr = (if (case g of None \<Rightarrow> mv_grayscale mv | Some b \<Rightarrow> b) then [h, w, 1] else [h, w, c])"
proof -
  let ?gray = "case g of None \<Rightarrow> mv_grayscale mv | Some b \<Rightarrow> b"
  let ?r0 = "if rd_pos (mv_reader mv) \<noteq> idx then (mv_reader mv)\<lparr>rd_pos := max 0 idx\<rparr>
             else mv_reader mv"
  obtain frame0 r1 where rd: "reader_read ?r0 = (frame0, r1)" by (cases "reader_read ?r0")
  let ?frame1 = "if ?gray then
               (case frame0 of
                  None \<Rightarrow> Inl TypeError
                | Some f \<Rightarrow>
                    (case take_last_axis f False of
                       Inl e \<Rightarrow> Inl e
                     | Inr g \<Rightarrow> Inr (Some (add_last_axis g))))
             else Inr frame0"
  have res: "(case ?frame1 of
               Inl e \<Rightarrow> Inl e
             | Inr fr \<Rightarrow>
                 if mv_bgr mv then
                   (case fr of
                      None \<Rightarrow> Inl TypeError
                    | Some f \<Rightarrow>
                        (case reverse_last_axis f of
                           Inl e \<Rightarrow> Inl e
                         | Inr g \<Rightarrow> Inr (Some g)))
                 else Inr fr) = Inr (Some fr)"
    using run rd by (simp add: media_get_frame_def Let_def)
  have frames: "rd_frames ?r0 = rd_frames (mv_reader mv)" by simp
  obtain mid where mid: "?frame1 = Inr (Some mid)"
    and fin: "(if mv_bgr mv then reverse_last_axis mid else Inr mid) = Inr fr"
    using res by (auto split: sum.splits option.splits if_splits)
  obtain raw where raw: "frame0 = Some raw"
    and m: "(if ?gray then (case take_last_axis raw False of
                       Inl e \<Rightarrow> Inl e
                     | Inr g \<Rightarrow> Inr (add_last_axis g)) else Inr raw) = Inr mid"
    using mid by (auto split: sum.splits option.splits if_splits)
  have rin: "raw \<in> set (rd_frames (mv_reader mv))"
    using reader_read_Some[of ?r0 raw r1] rd raw frames by simp
  then have sraw: "shape raw = [h, w, c]" using uni by blast
  have smid: "shape mid = (if ?gray then [h, w, 1] else [h, w, c])"
  proof (cases ?gray)
    case True
    then obtain g' where g': "take_last_axis raw False = Inr g'" and me: "mid = add_last_axis g'"
      using m by (auto split: sum.splits)
    from take_last_axis_shape[OF g'] sraw True show ?thesis
      unfolding me by (simp add: add_last_axis_def)
  next
    case False
    then have "mid = raw" using m by simp
    then show ?thesis using sraw False by simp
  qed
  have "shape fr = shape mid"
  proof (cases "mv_bgr mv")
    case True
    then have "reverse_last_axis mid = Inr fr" using fin by simp
    then show ?thesis by (rule reverse_last_axis_shape)
  next
    case False
    then show ?thesis using fin by simp
  qed
  with smid show ?thesis by simp
qed

lemma media_get_frame_reader:
  "media_get_frame mv idx g = (r, mv') \<Longrightarrow>
   rd_frames (mv_reader mv') = rd_frames (mv_reader mv) \<and> mv_grayscale mv' = mv_grayscale mv
   \<and> mv_test_frame mv' = mv_test_frame mv"
  by (auto simp: media_get_frame_def Let_def reader_read_def split: prod.splits if_splits)

lemma mediavideo_new_test_frame:
  assumes "mediavideo_new fs fn g bgr = Inr v"
  shows "\<exists>v0 v1. media_get_frame v0 0 (Some False) = (Inr (mv_test_frame v), v1)
               \<and> rd_frames (mv_reader v) = rd_frames (mv_reader v0)"
proof -
  from assms obtain name where fn: "fn = Str name" and isf: "isfile fs name"
    by (cases fn) (auto simp: mediavideo_new_def split: if_splits)
  let ?v0 = "\<lparr>mv_filename = name,
              mv_grayscale = (case g of None \<Rightarrow> False | Some b \<Rightarrow> b),
              mv_bgr = bgr, mv_detect_grayscale = (g = None),
              mv_reader = video_capture fs name, mv_test_frame = None\<rparr>"
  obtain res v1 where run: "media_get_frame ?v0 0 (Some False) = (res, v1)"
    by (cases "media_get_frame ?v0 0 (Some False)")
  from assms fn isf run obtain tf where res: "res = Inr tf"
    by (cases res) (auto simp: mediavideo_new_def Let_def)
  let ?v2 = "v1\<lparr>mv_test_frame := tf\<rparr>"
  have v: "v = ?v2 \<or> (\<exists>gr. v = ?v2\<lparr>mv_grayscale := gr\<rparr>)"
    using assms fn isf run res
    by (auto simp: mediavideo_new_def Let_def split: if_splits sum.splits)
  from media_get_frame_reader[OF run]
  have r: "rd_frames (mv_reader v1) = rd_frames (mv_reader ?v0)" by simp
  from v have "mv_test_frame v = tf \<and> rd_frames (mv_reader v) = rd_frames (mv_reader v1)"
    by auto
  with run res r show ?thesis by metis
qed

lemma media_frame_shape:
  assumes new: "mediavideo_new fs fn g bgr = Inr v"
      and uni: "\<forall>raw\<in>set (rd_frames (mv_reader v)). shape raw = [h, w, c]"
      and tf: "mv_test_frame v \<noteq> None"
      and run: "media_get_frame v idx None = (Inr (Some fr), v')"
  shows "\<exists>c'. media_frames v = Inr (length (rd_frames (mv_reader v)))
           \<and> media_height v = Inr h \<and> media_width v = Inr w
           \<and> media_channels v = Inr c' \<and> shape fr = [h, w, c']
           \<and> video_shape \<lparr>backend = MediaBackend v\<rparr>
               = Inr [length (rd_frames (mv_reader v)), h, w, c']"
proof -
  from mediavideo_new_test_frame[OF new] obtain v0 v1 where
    t: "media_get_frame v0 0 (Some False) = (Inr (mv_test_frame v), v1)"
    and r: "rd_frames (mv_reader v) = rd_frames (mv_reader v0)" by blast
  from tf obtain tfr where tfr: "mv_test_frame v = Some tfr" by auto
  have "shape tfr = (if (case Some False of None \<Rightarrow> mv_grayscale v0 | Some b \<Rightarrow> b)
                     then [h, w, 1] else [h, w, c])"
    using t uni r unfolding tfr by (intro media_get_frame_shape) simp_all
  then have st: "shape tfr = [h, w, c]" by simp
  have sf: "shape fr = (if mv_grayscale v then [h, w, 1] else [h, w, c])"
    using media_get_frame_shape[OF run uni] by simp
  let ?c = "if mv_grayscale v then 1 else c"
  have hh: "media_height v = Inr h" and ww: "media_width v = Inr w"
    and cc: "media_channels v = Inr ?c"
    using tfr st by (simp_all add: media_height_def media_width_def media_channels_def shape_at_def)
  have ff: "media_frames v = Inr (length (rd_frames (mv_reader v)))"
    by (simp add: media_frames_def)
  have "video_shape \<lparr>backend = MediaBackend v\<rparr>
               = Inr [length (rd_frames (mv_reader v)), h, w, ?c]"
    using hh ww cc ff
    by (simp add: video_shape_def video_frames_def video_height_def video_width_def
          video_channels_def)
  with hh ww cc ff sf show ?thesis by auto
qed

lemma list2:
  assumes "length (xs :: 'a list) = 2"
  shows "\<exists>a b. xs = [a, b]"
proof -
  from assms obtain a r1 where 1: "xs = a # r1" "length r1 = 1" by (cases xs) auto
  then obtain b where "r1 = [b]" by (cases r1) auto
  with 1 show ?thesis by simp
qed

lemma imgstore_frame_shape:
  assumes st: "iv_store v = Some st" and img: "iv_img v = Some img0"
      and uni: "\<forall>img\<in>insert img0 (snd ` set (store_images st)). shape img = s"
      and dims: "length s = 2 \<or> length s = 3"
      and run: "imgstore_get_frame opn v n = (Inr fr, v')"
  shows "\<exists>h w c. imgstore_frames v = Inr (length (store_images st))
           \<and> imgstore_height v = Inr h \<and> imgstore_width v = Inr w
           \<and> imgstore_channels v = Inr c \<and> shape fr = [h, w, c]
           \<and> video_shape \<lparr>backend = ImgStoreBackend v\<rparr> = Inr [length (store_images st), h, w, c]"
proof -
  have op: "imgstore_open opn v = Inr v" using st by (simp add: imgstore_open_def)
  let ?look = "if iv_index_by_original v then get_image_by_number st n
               else get_image_by_index st n"
  have unf: "imgstore_get_frame opn v n =
               (case ?look of
                  Inl e \<Rightarrow> (Inl e, v)
                | Inr img \<Rightarrow> (Inr (if length (shape img) = 2 then add_last_axis img else img), v))"
    by (simp add: imgstore_get_frame_def op st)
  from run unf obtain img where im: "?look = Inr img"
    and fr: "fr = (if length (shape img) = 2 then add_last_axis img else img)"
    by (cases ?look) simp_all
  have "img \<in> snd ` set (store_images st)"
  proof (cases "iv_index_by_original v")
    case True
    then have "map_of (store_images st) n = Some img"
      using im by (cases "map_of (store_images st) n") (simp_all add: get_image_by_number_def)
    then have "(n, img) \<in> set (store_images st)" by (rule map_of_SomeD)
    then have "snd (n, img) \<in> snd ` set (store_images st)" by (rule imageI)
    then show ?thesis by simp
  next
    case False
    then have g: "get_image_by_index st n = Inr img" using im by simp
    then have r: "0 \<le> n \<and> n < int (length (store_images st))"
      and e: "img = snd (store_images st ! nat n)"
      by (simp_all add: get_image_by_index_def split: if_splits)
    from r have "nat n < length (store_images st)" by (simp add: nat_less_iff)
    then have "store_images st ! nat n \<in> set (store_images st)" by (rule nth_mem)
    then show ?thesis unfolding e by (rule imageI)
  qed
  then have "img \<in> insert img0 (snd ` set (store_images st))" by (rule insertI2)
  then have si: "shape img = s" by (rule bspec[OF uni])
  have "img0 \<in> insert img0 (snd ` set (store_images st))" by (rule insertI1)
  then have s0: "shape img0 = s" by (rule bspec[OF uni])
  have ff: "imgstore_frames v = Inr (length (store_images st))"
    using st by (simp add: imgstore_frames_def)
  have vs: "video_shape \<lparr>backend = ImgStoreBackend v\<rparr> = Inr [f, h, w, c]"
    if "imgstore_frames v = Inr f" "imgstore_height v = Inr h" "imgstore_width v = Inr w"
       "imgstore_channels v = Inr c" for f h w c
    using that by (simp add: video_shape_def video_frames_def video_height_def video_width_def
          video_channels_def)
  from dims show ?thesis
  proof
    assume "length s = 2"
    then obtain a b where s: "s = [a, b]" using list2 by blast
    have hh: "imgstore_height v = Inr a" and ww: "imgstore_width v = Inr b"
      and cc: "imgstore_channels v = Inr 1"
      using img s0 s
      by (simp_all add: imgstore_height_def imgstore_width_def imgstore_channels_def shape_at_def)
    have sf: "shape fr = [a, b, 1]" using fr si s by (simp add: add_last_axis_def)
    from ff hh ww cc sf vs[OF ff hh ww cc] show ?thesis by (intro exI conjI)
  next
    assume "length s = 3"
    then obtain a b c where s: "s = [a, b, c]" using list3 by blast
    have hh: "imgstore_height v = Inr a" and ww: "imgstore_width v = Inr b"
      and cc: "imgstore_channels v = Inr c"
      using img s0 s
      by (simp_all add: imgstore_height_def imgstore_width_def imgstore_channels_def shape_at_def)
    have sf: "shape fr = [a, b, c]" using fr si s by simp
    from ff hh ww cc sf vs[OF ff hh ww cc] show ?thesis by (intro exI conjI)
  qed
qed

lemma imgstorevideo_new_open:
  assumes "imgstorevideo_new opn cwd fn ibo = Inr v"
  shows "\<exists>st img rest k. iv_store v = Some st \<and> iv_img v = Some img
              \<and> opn (iv_filename v) = Inr st \<and> store_images st = (k, img) # rest"
proof -
  from assms obtain f where fn: "fn = Str f" by (cases fn) (auto simp: imgstorevideo_new_def)
  let ?f2 = "abspath cwd (if \<not> sublist ''metadata.yaml'' f then path_join f ''metadata.yaml'' else f)"
  let ?v0 = "\<lparr>iv_filename = ?f2, iv_index_by_original = ibo, iv_store = None, iv_img = None\<rparr>"
  have o: "imgstore_open opn ?v0 = Inr v"
    using assms fn by (simp add: imgstorevideo_new_def Let_def)
  then obtain st where st: "opn ?f2 = Inr st"
    by (cases "opn ?f2") (auto simp: imgstore_open_def)
  from o st obtain img where im: "get_next_image st = Inr img"
    by (cases "get_next_image st") (auto simp: imgstore_open_def)
  from o st im have v: "v = ?v0\<lparr>iv_store := Some st, iv_img := Some img\<rparr>"
    by (simp add: imgstore_open_def)
  from im obtain k rest where "store_images st = (k, img) # rest"
    by (auto simp: get_next_image_def split: list.splits)
  with v st show ?thesis by simp
qed

text \<open>
  Claim C1. Every backend exposes frame count, height, width, channel count and frame
  fetch with the same meaning: \<open>get_frame(i)\<close> has the shape (height, width, channels)
  that the backend's properties report, and \<open>Video.shape\<close> is (frames, height, width,
  channels). The numpy backend does not: it reads the width from axis 1 and the height
  from axis 2 of its array, while \<open>get_frame\<close> returns the slice with axis 1 first. On an
  array of shape (1, 2, 3, 1) it reports height 3 and width 2, \<open>Video.shape\<close> is
  (1, 3, 2, 1), and the frame has shape (2, 3, 1).
\<close>

theorem numpy_frame_shape_swapped:
  "numpyvideo_new (\<lambda>p. None) (ArrayObj \<lparr>shape = [1, 2, 3, 1], elems = [1, 2, 3, 4, 5, 6]\<rparr>)
   = Inr \<lparr>nv_filename = Str ''Raw Video Data'',
          nv_data = Some \<lparr>shape = [1, 2, 3, 1], elems = [1, 2, 3, 4, 5, 6]\<rparr>,
          nv_frame_idx = 0, nv_width_idx = 1, nv_height_idx = 2, nv_channel_idx = 3\<rparr>
   \<and> video_shape \<lparr>backend = NumpyBackend
          \<lparr>nv_filename = Str ''Raw Video Data'',
           nv_data = Some \<lparr>shape = [1, 2, 3, 1], elems = [1, 2, 3, 4, 5, 6]\<rparr>,
           nv_frame_idx = 0, nv_width_idx = 1, nv_height_idx = 2, nv_channel_idx = 3\<rparr>\<rparr>
     = Inr [1, 3, 2, 1]
   \<and> numpy_get_frame
          \<lparr>nv_filename = Str ''Raw Video Data'',
           nv_data = Some \<lparr>shape = [1, 2, 3, 1], elems = [1, 2, 3, 4, 5, 6]\<rparr>,
           nv_frame_idx = 0, nv_width_idx = 1, nv_height_idx = 2, nv_channel_idx = 3\<rparr> 0
     = Inr \<lparr>shape = [2, 3, 1], elems = [1, 2, 3, 4, 5, 6]\<rparr>"
  by code_simp

section \<open>Verified properties: the file name of an image store\<close>

lemma split_sep_nonempty: "split_sep p \<noteq> []"
  by (induction p) (auto split: list.splits)

lemma split_sep_no_sep: "CHR ''/'' \<notin> set c \<Longrightarrow> split_sep c = [c]"
  by (induction c) auto

lemma split_sep_append:
  "split_sep (xs @ CHR ''/'' # ys) = split_sep xs @ split_sep ys"
proof (induction xs)
  case Nil
  show ?case by simp
next
  case (Cons x xs)
  obtain h t where ht: "split_sep xs = h # t"
    using split_sep_nonempty[of xs] by (cases "split_sep xs") auto
  show ?case using Cons ht by simp
qed

lemma norm_comps_append:
  "norm_comps i acc (xs @ ys) = norm_comps i (norm_comps i acc xs) ys"
  by (induction xs arbitrary: acc) simp_all

lemma norm_comps_last:
  assumes "c \<noteq> []" "c \<noteq> ''.''" "c \<noteq> ''..''"
  shows "norm_comps i acc (xs @ [c]) = norm_comps i acc xs @ [c]"
  using assms by (simp add: norm_comps_append)

lemma join_sep_snoc: "suffix c (join_sep (ys @ [c]))"
proof (induction ys rule: join_sep.induct)
  case 1
  show ?case by simp
next
  case (2 x)
  show ?case by (simp add: suffix_def)
next
  case (3 x y ys)
  then have "suffix c (join_sep ((y # ys) @ [c]))" by simp
  then have "suffix c ((x @ ''/'') @ join_sep ((y # ys) @ [c]))" by (rule suffix_appendI)
  then show ?case by simp
qed

lemma normpath_suffix:
  assumes p: "p = a @ c" and a: "a = [] \<or> last a = CHR ''/''"
      and c: "CHR ''/'' \<notin> set c" "c \<noteq> []" "c \<noteq> ''.''" "c \<noteq> ''..''"
  shows "suffix c (normpath p)"
proof -
  have "\<exists>xs. split_sep p = xs @ [c]"
  proof (cases "a = []")
    case True
    then show ?thesis using p c(1) by (simp add: split_sep_no_sep)
  next
    case False
    then obtain a' where "a = a' @ [CHR ''/'']" using a by (metis append_butlast_last_id)
    then have "split_sep p = split_sep a' @ [c]"
      using p c(1) by (simp add: split_sep_append split_sep_no_sep)
    then show ?thesis by blast
  qed
  then obtain xs where xs: "split_sep p = xs @ [c]" ..
  have pne: "p \<noteq> []" using p c(2) by simp
  define i :: nat where "i = (if prefix ''/'' p
                then (if prefix ''//'' p \<and> \<not> prefix ''///'' p then 2 else 1)
                else 0)"
  have nc: "norm_comps i [] (split_sep p) = norm_comps i [] xs @ [c]"
    unfolding xs using c(2,3,4) by (rule norm_comps_last)
  have s: "suffix c (replicate i CHR ''/'' @ join_sep (norm_comps i [] xs @ [c]))"
    using join_sep_snoc[of c "norm_comps i [] xs"] by (rule suffix_appendI)
  have ne: "replicate i CHR ''/'' @ join_sep (norm_comps i [] xs @ [c]) \<noteq> []"
    using s c(2) by (auto simp: suffix_def)
  have "normpath p = replicate i CHR ''/'' @ join_sep (norm_comps i [] xs @ [c])"
    using pne ne nc unfolding normpath_def Let_def i_def[symmetric] by auto
  with s show ?thesis by simp
qed

lemma normpath_absolute:
  assumes "prefix ''/'' p"
  shows "prefix ''/'' (normpath p)"
proof -
  have pne: "p \<noteq> []" using assms by auto
  define i :: nat where "i = (if prefix ''/'' p
                then (if prefix ''//'' p \<and> \<not> prefix ''///'' p then 2 else 1)
                else 0)"
  have i: "i = 1 \<or> i = 2" using assms by (simp add: i_def)
  define r where "r = join_sep (norm_comps i [] (split_sep p))"
  have "normpath p = replicate i CHR ''/'' @ r"
    using pne i unfolding normpath_def Let_def i_def[symmetric] r_def[symmetric] by auto
  with i show ?thesis by (auto simp: numeral_2_eq_2)
qed

lemma last_component:
  "\<exists>a x. q = a @ x \<and> CHR ''/'' \<notin> set x \<and> (a = [] \<or> last a = CHR ''/'')"
proof -
  let ?x = "rev (takeWhile (\<lambda>ch. ch \<noteq> CHR ''/'') (rev q))"
  let ?a = "rev (dropWhile (\<lambda>ch. ch \<noteq> CHR ''/'') (rev q))"
  have "rev q = takeWhile (\<lambda>ch. ch \<noteq> CHR ''/'') (rev q) @ dropWhile (\<lambda>ch. ch \<noteq> CHR ''/'') (rev q)"
    by simp
  then have "rev (rev q) = ?a @ ?x" by (metis rev_append)
  then have 1: "q = ?a @ ?x" by simp
  have 2: "CHR ''/'' \<notin> set ?x" by (auto dest: set_takeWhileD)
  have 3: "?a = [] \<or> last ?a = CHR ''/''"
  proof (cases "dropWhile (\<lambda>ch. ch \<noteq> CHR ''/'') (rev q) = []")
    case True
    then show ?thesis by simp
  next
    case False
    then have "hd (dropWhile (\<lambda>ch. ch \<noteq> CHR ''/'') (rev q)) = CHR ''/''"
      using hd_dropWhile[of "\<lambda>ch. ch \<noteq> CHR ''/''" "rev q"] by simp
    then show ?thesis using False by (simp add: last_rev)
  qed
  from 1 2 3 show ?thesis by blast
qed

lemma abspath_metadata:
  assumes "suffix ''metadata.yaml'' p"
  shows "suffix ''metadata.yaml'' (abspath cwd p)"
proof -
  from assms obtain q where q: "p = q @ ''metadata.yaml''" by (auto simp: suffix_def)
  obtain a x where ax: "q = a @ x" "CHR ''/'' \<notin> set x" "a = [] \<or> last a = CHR ''/''"
    using last_component[of q] by blast
  define c where "c = x @ ''metadata.yaml''"
  have p: "p = a @ c" using q ax(1) by (simp add: c_def)
  have c1: "CHR ''/'' \<notin> set c" using ax(2) by (simp add: c_def)
  have c2: "c \<noteq> []" by (simp add: c_def)
  have lc: "last c = CHR ''l''" by (simp add: c_def)
  have c3: "c \<noteq> ''.''" using lc by auto
  have c4: "c \<noteq> ''..''" using lc by auto
  have tc: "suffix ''metadata.yaml'' c" by (simp add: c_def suffix_def)
  have key: "suffix c (normpath (a' @ c))" if "a' = [] \<or> last a' = CHR ''/''" for a'
    using that c1 c2 c3 c4 by (intro normpath_suffix[where a = a']) simp_all
  have "suffix c (abspath cwd p)"
  proof (cases "prefix ''/'' p")
    case True
    then show ?thesis using key[OF ax(3)] by (simp add: abspath_def p)
  next
    case False
    show ?thesis
    proof (cases "cwd = [] \<or> suffix ''/'' cwd")
      case True
      have l: "cwd @ a = [] \<or> last (cwd @ a) = CHR ''/''"
      proof (cases "a = []")
        case an: True
        from True show ?thesis
        proof
          assume "cwd = []" then show ?thesis using an by simp
        next
          assume "suffix ''/'' cwd"
          then obtain zs where "cwd = zs @ ''/''" by (auto simp: suffix_def)
          then show ?thesis using an by simp
        qed
      next
        case False
        then show ?thesis using ax(3) by simp
      qed
      have "path_join cwd p = (cwd @ a) @ c" using False True by (simp add: path_join_def p)
      then show ?thesis using False key[OF l] by (simp add: abspath_def)
    next
      case no: False
      have l: "cwd @ ''/'' @ a = [] \<or> last (cwd @ ''/'' @ a) = CHR ''/''"
        using ax(3) by auto
      have "path_join cwd p = (cwd @ ''/'' @ a) @ c" using False no by (simp add: path_join_def p)
      then show ?thesis using False key[OF l] by (simp add: abspath_def)
    qed
  qed
  with tc show ?thesis by (rule suffix_order.trans)
qed

lemma abspath_absolute:
  assumes "prefix ''/'' cwd"
  shows "prefix ''/'' (abspath cwd p)"
proof (cases "prefix ''/'' p")
  case True
  then show ?thesis by (simp add: abspath_def normpath_absolute)
next
  case False
  have "prefix cwd (path_join cwd p)" using False by (simp add: path_join_def)
  with assms have "prefix ''/'' (path_join cwd p)" by (rule prefix_order.trans)
  then show ?thesis using False by (simp add: abspath_def normpath_absolute)
qed

lemma path_join_metadata: "suffix ''metadata.yaml'' (path_join f ''metadata.yaml'')"
  by (simp add: path_join_def suffix_def)

text \<open>
  Claim C10, as amended. After a construction of \<open>ImgStoreVideo\<close> that returns (the
  current directory being absolute), the stored file name is the absolute path of the
  given name, with \<open>metadata.yaml\<close> joined to it as a path component when the given name
  does not contain \<open>metadata.yaml\<close>, and the store was opened under that absolute name.
  It ends in \<open>metadata.yaml\<close> when the given name does not contain \<open>metadata.yaml\<close> or
  itself ends in it, and also whenever the store library opens nothing but files named
  \<open>metadata.yaml\<close>.
\<close>

theorem imgstore_filename_absolute:
  "imgstorevideo_new opn cwd (Str f) ibo = Inr v \<and> prefix ''/'' cwd \<longrightarrow>
     iv_filename v
       = abspath cwd (if \<not> sublist ''metadata.yaml'' f then path_join f ''metadata.yaml'' else f)
   \<and> prefix ''/'' (iv_filename v)
   \<and> (\<not> sublist ''metadata.yaml'' f \<or> suffix ''metadata.yaml'' f \<longrightarrow>
        suffix ''metadata.yaml'' (iv_filename v))
   \<and> ((\<forall>p st. opn p = Inr st \<longrightarrow> basename p = ''metadata.yaml'') \<longrightarrow>
        suffix ''metadata.yaml'' (iv_filename v))
   \<and> (\<exists>st. opn (iv_filename v) = Inr st \<and> iv_store v = Some st)"
proof (intro impI, elim conjE)
  assume new: "imgstorevideo_new opn cwd (Str f) ibo = Inr v" and cwd: "prefix ''/'' cwd"
  let ?f1 = "if \<not> sublist ''metadata.yaml'' f then path_join f ''metadata.yaml'' else f"
  let ?v0 = "\<lparr>iv_filename = abspath cwd ?f1, iv_index_by_original = ibo,
              iv_store = None, iv_img = None\<rparr>"
  have o: "imgstore_open opn ?v0 = Inr v"
    using new by (simp add: imgstorevideo_new_def Let_def)
  then obtain st where st: "opn (abspath cwd ?f1) = Inr st"
    by (cases "opn (abspath cwd ?f1)") (auto simp: imgstore_open_def)
  from o st obtain img where im: "get_next_image st = Inr img"
    by (cases "get_next_image st") (auto simp: imgstore_open_def)
  from o st im have v: "v = ?v0\<lparr>iv_store := Some st, iv_img := Some img\<rparr>"
    by (simp add: imgstore_open_def)
  have fn: "iv_filename v = abspath cwd ?f1" using v by simp
  have ab: "prefix ''/'' (iv_filename v)" unfolding fn using cwd by (rule abspath_absolute)
  have en: "suffix ''metadata.yaml'' (iv_filename v)"
    if "\<not> sublist ''metadata.yaml'' f \<or> suffix ''metadata.yaml'' f"
  proof -
    have "suffix ''metadata.yaml'' ?f1"
      using that path_join_metadata[of f] by (cases "sublist ''metadata.yaml'' f") simp_all
    then show ?thesis unfolding fn by (rule abspath_metadata)
  qed
  have op: "\<exists>st. opn (iv_filename v) = Inr st \<and> iv_store v = Some st"
    using st v fn by simp
  have lib: "suffix ''metadata.yaml'' (iv_filename v)"
    if "\<forall>p st. opn p = Inr st \<longrightarrow> basename p = ''metadata.yaml''"
  proof -
    from that st have "basename (abspath cwd ?f1) = ''metadata.yaml''" by blast
    then have "suffix ''metadata.yaml'' (abspath cwd ?f1)"
      unfolding basename_def by (metis suffix_drop)
    then show ?thesis unfolding fn .
  qed
  from fn ab en lib op
  show "iv_filename v = abspath cwd ?f1
   \<and> prefix ''/'' (iv_filename v)
   \<and> (\<not> sublist ''metadata.yaml'' f \<or> suffix ''metadata.yaml'' f \<longrightarrow>
        suffix ''metadata.yaml'' (iv_filename v))
   \<and> ((\<forall>p st. opn p = Inr st \<longrightarrow> basename p = ''metadata.yaml'') \<longrightarrow>
        suffix ''metadata.yaml'' (iv_filename v))
   \<and> (\<exists>st. opn (iv_filename v) = Inr st \<and> iv_store v = Some st)"
    by (intro conjI impI)
qed

theorem imgstore_filename_absolute_witness:
  "prefix ''/'' ''/home''
   \<and> imgstorevideo_new
        (\<lambda>p. Inr \<lparr>store_images = [(0, \<lparr>shape = [1, 1], elems = [0]\<rparr>)]\<rparr>) ''/home''
        (Str ''clips'') True
       = Inr \<lparr>iv_filename = ''/home/clips/metadata.yaml'', iv_index_by_original = True,
              iv_store = Some \<lparr>store_images = [(0, \<lparr>shape = [1, 1], elems = [0]\<rparr>)]\<rparr>,
              iv_img = Some \<lparr>shape = [1, 1], elems = [0]\<rparr>\<rparr>
   \<and> \<not> sublist ''metadata.yaml'' ''clips''
   \<and> prefix ''/'' ''/home/clips/metadata.yaml''
   \<and> suffix ''metadata.yaml'' ''/home/clips/metadata.yaml''"
proof -
  let ?opn = "\<lambda>p :: string. Inr \<lparr>store_images = [(0 :: int, \<lparr>shape = [1, 1], elems = [0 :: rat]\<rparr>)]\<rparr>
                :: error + store"
  let ?v = "\<lparr>iv_filename = ''/home/clips/metadata.yaml'', iv_index_by_original = True,
              iv_store = Some \<lparr>store_images = [(0, \<lparr>shape = [1, 1], elems = [0]\<rparr>)]\<rparr>,
              iv_img = Some \<lparr>shape = [1, 1], elems = [0]\<rparr>\<rparr>"
  have cwd: "prefix ''/'' ''/home''" by simp
  have new: "imgstorevideo_new ?opn ''/home'' (Str ''clips'') True = Inr ?v" by code_simp
  have ns: "\<not> sublist ''metadata.yaml'' ''clips''" by code_simp
  from imgstore_filename_absolute
         [where opn = ?opn and cwd = "''/home''" and f = "''clips''" and ibo = True and v = ?v]
       new cwd ns
  have "prefix ''/'' (iv_filename ?v) \<and> suffix ''metadata.yaml'' (iv_filename ?v)"
    by blast
  then have "prefix ''/'' ''/home/clips/metadata.yaml''
             \<and> suffix ''metadata.yaml'' ''/home/clips/metadata.yaml''" by simp
  with cwd new ns show ?thesis by (intro conjI) simp_all
qed

text \<open>
  The claim as first stated fails on a name that contains \<open>metadata.yaml\<close> without
  ending in it: nothing is appended, and the stored name does not end in
  \<open>metadata.yaml\<close> (here with a store library that opens the path it is given).
\<close>

theorem imgstore_filename_not_ending:
  "imgstorevideo_new
     (\<lambda>p. Inr \<lparr>store_images = [(0, \<lparr>shape = [1, 1], elems = [0]\<rparr>)]\<rparr>) ''/home''
     (Str ''frames_metadata.yaml_old'') True
   = Inr \<lparr>iv_filename = ''/home/frames_metadata.yaml_old'', iv_index_by_original = True,
          iv_store = Some \<lparr>store_images = [(0, \<lparr>shape = [1, 1], elems = [0]\<rparr>)]\<rparr>,
          iv_img = Some \<lparr>shape = [1, 1], elems = [0]\<rparr>\<rparr>
   \<and> \<not> suffix ''metadata.yaml'' ''/home/frames_metadata.yaml_old''"
  by code_simp

end
